theory Spec2Isabelle
  imports Complex_Main "HOL-Library.Word"
begin

section \<open>BOB and COB mesh files: a model of \<open>bob_plugin.py\<close>\<close>

text \<open>
  The plugin reads and writes two binary mesh formats with Python's \<open>struct\<close> module.
  Files are byte lists. Python integers are \<open>int\<close>. A float of a mesh or of a file is
  the 32 bits that encode it; the value that Python computes with is a \<open>pyfloat\<close>, a
  finite number, an infinity or NaN, and the arithmetic of the quantisation rounds to
  binary64 (subsection Floats). Every exception of the source is a value of \<open>error\<close>:
  \<^item> \<open>BadMagic\<close>: the \<open>assert\<close> on the leading integer (lines 225 and 398);
  \<^item> \<open>UnsupportedFormat\<close>: the \<open>assert meshFormat in [0, 1]\<close> (line 227);
  \<^item> \<open>Truncated\<close>: \<open>struct.unpack\<close> on fewer bytes than the format needs;
  \<^item> \<open>MalformedMesh\<close>: the \<open>assert\<close> on the length of a face (lines 385 and 456);
  \<^item> \<open>PackRange\<close>: \<open>struct.pack\<close> on an integer outside the range of its format;
  \<^item> \<open>ValueError\<close> and \<open>OverflowError\<close>: \<open>int\<close> on NaN and on an infinity.
  The byte order is little-endian: the formats are written without a prefix, which is
  the byte order of the host, and the file formats are those of little-endian hosts.
\<close>

type_synonym byte = "8 word"

datatype error =
  BadMagic | UnsupportedFormat | Truncated | MalformedMesh | PackRange | ValueError | OverflowError

definition BOB_FILE_ID :: int where
  "BOB_FILE_ID = 45623"

definition COB_FILE_ID :: int where
  "COB_FILE_ID = 13466"

subsection \<open>Floats\<close>

text \<open>
  The host stores positions, normals and UVs as IEEE-754 binary32, and so do the files:
  such a float is the 32 bits that encode it. Python reads it as a double of the same
  value, \<open>f32_value\<close>: a finite number, an infinity or NaN. The two zeros have the
  value 0.
\<close>

type_synonym f32 = "32 word"

datatype pyfloat = Finite real | PInf | NInf | NaN

definition pow2 :: "int \<Rightarrow> real" where
  "pow2 e = (if 0 \<le> e then 2 ^ nat e else 1 / 2 ^ nat (- e))"

definition f32_value :: "f32 \<Rightarrow> pyfloat" where
  "f32_value w =
     (let n = uint w; e = (n div 8388608) mod 256; m = n mod 8388608
      in if e = 255 then (if m \<noteq> 0 then NaN else if n < 2147483648 then PInf else NInf)
         else if e = 0
           then Finite ((if n < 2147483648 then 1 else - 1) * real_of_int m * pow2 (- 149))
           else Finite ((if n < 2147483648 then 1 else - 1) * real_of_int (8388608 + m)
                        * pow2 (e - 150)))"

text \<open>
  The result of an operation on doubles is the exact result rounded to the nearest
  double, to the even one of two that are equally near: \<open>round_double\<close>, with 53
  significant bits and the least exponent of binary64. Overflow is left out: the
  results that are rounded here lie between \<open>-65535\<close> and 65535, or are \<open>1 - x\<close> for a
  double \<open>x\<close>.
\<close>

definition round_half_even :: "real \<Rightarrow> int" where
  "round_half_even q =
     (if q - real_of_int \<lfloor>q\<rfloor> < 1 / 2 then \<lfloor>q\<rfloor>
      else if 1 / 2 < q - real_of_int \<lfloor>q\<rfloor> then \<lfloor>q\<rfloor> + 1
      else if even \<lfloor>q\<rfloor> then \<lfloor>q\<rfloor> else \<lfloor>q\<rfloor> + 1)"

definition double_exponent :: "real \<Rightarrow> int" where
  "double_exponent x = max \<lfloor>log 2 \<bar>x\<bar>\<rfloor> (- 1022) - 52"

definition round_double :: "real \<Rightarrow> real" where
  "round_double x =
     (if x = 0 then 0
      else real_of_int (round_half_even (x / pow2 (double_exponent x)))
           * pow2 (double_exponent x))"

text \<open>
  The operations of Python on floats that the plugin uses: the comparison \<open><\<close>, which
  is false when an operand is NaN; \<open>min\<close> and \<open>max\<close> of two arguments, which return
  the second argument when it is smaller (greater) than the first and the first
  otherwise; \<open>1 - x\<close>; \<open>x * k\<close> for a positive integer \<open>k\<close>; and \<open>int\<close>, which
  truncates towards zero and raises on NaN and on an infinity.
\<close>

fun py_less :: "pyfloat \<Rightarrow> pyfloat \<Rightarrow> bool" where
  "py_less (Finite x) (Finite y) = (x < y)"
| "py_less (Finite x) PInf = True"
| "py_less NInf (Finite y) = True"
| "py_less NInf PInf = True"
| "py_less a b = False"

definition py_min :: "pyfloat \<Rightarrow> pyfloat \<Rightarrow> pyfloat" where
  "py_min a b = (if py_less b a then b else a)"

definition py_max :: "pyfloat \<Rightarrow> pyfloat \<Rightarrow> pyfloat" where
  "py_max a b = (if py_less a b then b else a)"

definition one_minus :: "pyfloat \<Rightarrow> pyfloat" where
  "one_minus x =
     (case x of Finite a \<Rightarrow> Finite (round_double (1 - a)) | PInf \<Rightarrow> NInf | NInf \<Rightarrow> PInf
      | NaN \<Rightarrow> NaN)"

definition float_times :: "pyfloat \<Rightarrow> real \<Rightarrow> pyfloat" where
  "float_times x k =
     (case x of Finite a \<Rightarrow> Finite (round_double (a * k)) | PInf \<Rightarrow> PInf | NInf \<Rightarrow> NInf
      | NaN \<Rightarrow> NaN)"

definition py_int :: "pyfloat \<Rightarrow> error + int" where
  "py_int x =
     (case x of
        Finite a \<Rightarrow> Inr (if 0 \<le> a then \<lfloor>a\<rfloor> else \<lceil>a\<rceil>)
      | NaN \<Rightarrow> Inl ValueError
      | _ \<Rightarrow> Inl OverflowError)"

text \<open>
  The difference of two floats and the length of a vector, as the vector library of the
  host computes them (\<open>(v1 - v2).length\<close>, line 315): the difference of two equal
  infinities is NaN, and the length is NaN when a component is NaN and infinite when
  one is infinite. On finite components the difference and the length are exact, and
  \<open>0.01\<close> is \<open>1/100\<close>: the rounding inside the library is not part of the model, so
  that the model and the code can differ only for vectors whose distance is at the
  threshold. The difference of a vector and itself is exactly 0 in both.
\<close>

fun float_sub :: "pyfloat \<Rightarrow> pyfloat \<Rightarrow> pyfloat" where
  "float_sub (Finite x) (Finite y) = Finite (x - y)"
| "float_sub NaN b = NaN"
| "float_sub a NaN = NaN"
| "float_sub PInf PInf = NaN"
| "float_sub NInf NInf = NaN"
| "float_sub PInf b = PInf"
| "float_sub NInf b = NInf"
| "float_sub (Finite x) PInf = NInf"
| "float_sub (Finite x) NInf = PInf"

fun is_finite :: "pyfloat \<Rightarrow> bool" where
  "is_finite (Finite x) = True"
| "is_finite a = False"

fun finite_value :: "pyfloat \<Rightarrow> real" where
  "finite_value (Finite x) = x"
| "finite_value a = 0"

definition vec_length :: "pyfloat list \<Rightarrow> pyfloat" where
  "vec_length v =
     (if NaN \<in> set v then NaN
      else if PInf \<in> set v \<or> NInf \<in> set v then PInf
      else Finite (sqrt (sum_list (map (\<lambda>a. (finite_value a)\<^sup>2) v))))"

subsection \<open>Reading: \<open>readstruct\<close>\<close>

text \<open>
  \<open>readstruct(s)\<close> is \<open>struct.unpack(s, file.read(struct.calcsize(s)))\<close>: the format
  \<open>s\<close> fixes the number of bytes and how they are decoded. The file position is the
  list of bytes not read yet. \<open>file.read(n)\<close> returns fewer than \<open>n\<close> bytes at the end
  of the file, and \<open>struct.unpack\<close> raises on them.
\<close>

definition file_read :: "nat \<Rightarrow> byte list \<Rightarrow> error + (byte list \<times> byte list)" where
  "file_read n bs = (if length bs < n then Inl Truncated else Inr (take n bs, drop n bs))"

text \<open>The integer formats: \<open>I\<close> (u32), \<open>H\<close> (u16), \<open>h\<close> (i16), \<open>b\<close> (i8).\<close>

fun le_uint :: "byte list \<Rightarrow> int" where
  "le_uint [] = 0"
| "le_uint (b # bs) = uint b + 256 * le_uint bs"

definition unpack_I :: "byte list \<Rightarrow> int" where
  "unpack_I bs = le_uint bs"

definition unpack_H :: "byte list \<Rightarrow> int" where
  "unpack_H bs = le_uint bs"

definition unpack_h :: "byte list \<Rightarrow> int" where
  "unpack_h bs = (if le_uint bs < 32768 then le_uint bs else le_uint bs - 65536)"

definition unpack_b :: "byte list \<Rightarrow> int" where
  "unpack_b bs = (if le_uint bs < 128 then le_uint bs else le_uint bs - 256)"

text \<open>The format \<open>f\<close>: the 32 bits of a float.\<close>

definition unpack_f :: "byte list \<Rightarrow> f32" where
  "unpack_f bs = word_of_int (le_uint bs)"

definition readstruct :: "nat \<Rightarrow> (byte list \<Rightarrow> 'a) \<Rightarrow> byte list \<Rightarrow> error + ('a \<times> byte list)" where
  "readstruct sz unpack bs =
     (case file_read sz bs of Inl e \<Rightarrow> Inl e | Inr (x, r) \<Rightarrow> Inr (unpack x, r))"

definition readstruct_I :: "byte list \<Rightarrow> error + (int \<times> byte list)" where
  "readstruct_I = readstruct 4 unpack_I"

definition readstruct_H :: "byte list \<Rightarrow> error + (int \<times> byte list)" where
  "readstruct_H = readstruct 2 unpack_H"

definition readstruct_b :: "byte list \<Rightarrow> error + (int \<times> byte list)" where
  "readstruct_b = readstruct 1 unpack_b"

definition unpack_fff :: "byte list \<Rightarrow> f32 \<times> f32 \<times> f32" where
  "unpack_fff x = (unpack_f (take 4 x), unpack_f (take 4 (drop 4 x)), unpack_f (take 4 (drop 8 x)))"

definition readstruct_fff :: "byte list \<Rightarrow> error + ((f32 \<times> f32 \<times> f32) \<times> byte list)" where
  "readstruct_fff = readstruct 12 unpack_fff"

text \<open>
  The vertex record \<open>fff HH hhh xx\<close> of a BOB file: 24 bytes, the last two padding.
  Lines 241 to 243 turn it into the triple of the position, the UV (divided by 65535)
  and the normal (divided by 32767); the division of two integers gives the nearest
  double.
\<close>

type_synonym vertexObj = "(f32 \<times> f32 \<times> f32) \<times> (real \<times> real) \<times> (real \<times> real \<times> real)"

definition unpack_vertex :: "byte list \<Rightarrow> vertexObj" where
  "unpack_vertex x =
     (unpack_fff (take 12 x),
      (round_double (real_of_int (unpack_H (take 2 (drop 12 x))) / 65535),
       round_double (real_of_int (unpack_H (take 2 (drop 14 x))) / 65535)),
      (round_double (real_of_int (unpack_h (take 2 (drop 16 x))) / 32767),
       round_double (real_of_int (unpack_h (take 2 (drop 18 x))) / 32767),
       round_double (real_of_int (unpack_h (take 2 (drop 20 x))) / 32767)))"

definition readstruct_vertex :: "byte list \<Rightarrow> error + (vertexObj \<times> byte list)" where
  "readstruct_vertex = readstruct 24 unpack_vertex"

text \<open>\<open>for i in range(n): xs.append(readstruct(...))\<close>: the first failure ends the loop.\<close>

fun read_many :: "(byte list \<Rightarrow> error + ('a \<times> byte list)) \<Rightarrow> nat \<Rightarrow> byte list
    \<Rightarrow> error + ('a list \<times> byte list)" where
  "read_many rd 0 bs = Inr ([], bs)"
| "read_many rd (Suc n) bs =
     (case rd bs of
        Inl e \<Rightarrow> Inl e
      | Inr (x, r) \<Rightarrow>
          (case read_many rd n r of
             Inl e \<Rightarrow> Inl e
           | Inr (xs, r') \<Rightarrow> Inr (x # xs, r')))"

text \<open>
  Lines 256 and 257 (and 416 and 417): \<open>faceCount\<close> triples out of the
  \<open>faceCount * 3\<close> indices read before.
\<close>

fun group_faces :: "int list \<Rightarrow> (int \<times> int \<times> int) list" where
  "group_faces (a # b # c # r) = (a, b, c) # group_faces r"
| "group_faces r = []"

subsection \<open>\<open>load\<close>: reading a BOB file\<close>

text \<open>
  The result is what \<open>load\<close> hands to the host: the arguments of
  \<open>mesh.from_pydata\<close> (there are no edges) and the two lists the normals and the UVs of
  the mesh are taken from. The texture file and the host's mesh object are outside the
  model.
\<close>

record bob_mesh =
  b_verts :: "(f32 \<times> f32 \<times> f32) list"
  b_faces :: "(int \<times> int \<times> int) list"
  b_uv_list :: "(real \<times> real) list"
  b_normal_list :: "(real \<times> real \<times> real) list"

definition read_index :: "int \<Rightarrow> byte list \<Rightarrow> error + (int \<times> byte list)" where
  "read_index meshFormat = (if meshFormat = 0 then readstruct_b else readstruct_H)"

definition load_run :: "byte list \<Rightarrow> error + (bob_mesh \<times> byte list)" where
  "load_run bs =
     (case readstruct_I bs of
        Inl e \<Rightarrow> Inl e
      | Inr (magic, r1) \<Rightarrow>
          if magic \<noteq> BOB_FILE_ID then Inl BadMagic
          else
            (case readstruct_I r1 of
               Inl e \<Rightarrow> Inl e
             | Inr (meshFormat, r2) \<Rightarrow>
                 if meshFormat \<notin> {0, 1} then Inl UnsupportedFormat
                 else
                   (case readstruct_I r2 of
                      Inl e \<Rightarrow> Inl e
                    | Inr (vertexCount, r3) \<Rightarrow>
                        (case readstruct_I r3 of
                           Inl e \<Rightarrow> Inl e
                         | Inr (faceCount, r4) \<Rightarrow>
                             (case read_many readstruct_vertex (nat vertexCount) r4 of
                                Inl e \<Rightarrow> Inl e
                              | Inr (vs, r5) \<Rightarrow>
                                  (case read_many (read_index meshFormat)
                                          (nat (faceCount * 3)) r5 of
                                     Inl e \<Rightarrow> Inl e
                                   | Inr (indices, r6) \<Rightarrow>
                                       Inr (\<lparr>b_verts = map fst vs,
                                             b_faces = group_faces indices,
                                             b_uv_list = map (fst \<circ> snd) vs,
                                             b_normal_list = map (snd \<circ> snd) vs\<rparr>,
                                            r6)))))))"

definition load :: "byte list \<Rightarrow> error + bob_mesh" where
  "load bs = map_sum id fst (load_run bs)"

subsection \<open>\<open>loadcob\<close>: reading a COB file\<close>

record cob_mesh =
  c_verts :: "(f32 \<times> f32 \<times> f32) list"
  c_faces :: "(int \<times> int \<times> int) list"

text \<open>
  \<open>loadcob_run\<close> returns the mesh together with the bytes of the file that were not
  read when \<open>loadcob\<close> returns.
\<close>

definition loadcob_run :: "byte list \<Rightarrow> error + (cob_mesh \<times> byte list)" where
  "loadcob_run bs =
     (case readstruct_I bs of
        Inl e \<Rightarrow> Inl e
      | Inr (magic, r1) \<Rightarrow>
          if magic \<noteq> COB_FILE_ID then Inl BadMagic
          else
            (case readstruct_I r1 of
               Inl e \<Rightarrow> Inl e
             | Inr (vertexCount, r2) \<Rightarrow>
                 (case readstruct_I r2 of
                    Inl e \<Rightarrow> Inl e
                  | Inr (faceCount, r3) \<Rightarrow>
                      (case read_many readstruct_fff (nat vertexCount) r3 of
                         Inl e \<Rightarrow> Inl e
                       | Inr (vs, r4) \<Rightarrow>
                           (case read_many readstruct_I (nat (faceCount * 3)) r4 of
                              Inl e \<Rightarrow> Inl e
                            | Inr (indices, r5) \<Rightarrow>
                                Inr (\<lparr>c_verts = vs, c_faces = group_faces indices\<rparr>, r5))))))"

definition loadcob :: "byte list \<Rightarrow> error + cob_mesh" where
  "loadcob bs = map_sum id fst (loadcob_run bs)"

subsection \<open>Writing: \<open>writestruct\<close>\<close>

text \<open>
  \<open>struct.pack\<close> raises on an integer outside the range of its format. The four
  bytes that \<open>struct.pack('f', x)\<close> makes of a float of the mesh are the library's:
  the writers take the function from the 32 bits of the float to the bytes as the
  parameter \<open>pack_f\<close>.
\<close>

definition le2 :: "int \<Rightarrow> byte list" where
  "le2 n = [word_of_int n, word_of_int (n div 256)]"

definition le4 :: "int \<Rightarrow> byte list" where
  "le4 n = [word_of_int n, word_of_int (n div 256), word_of_int (n div 65536),
            word_of_int (n div 16777216)]"

definition pack_I :: "int \<Rightarrow> error + byte list" where
  "pack_I n = (if 0 \<le> n \<and> n \<le> 4294967295 then Inr (le4 n) else Inl PackRange)"

definition pack_H :: "int \<Rightarrow> error + byte list" where
  "pack_H n = (if 0 \<le> n \<and> n \<le> 65535 then Inr (le2 n) else Inl PackRange)"

definition pack_h :: "int \<Rightarrow> error + byte list" where
  "pack_h n = (if - 32768 \<le> n \<and> n \<le> 32767 then Inr (le2 n) else Inl PackRange)"

definition pack_HH :: "int \<times> int \<Rightarrow> error + byte list" where
  "pack_HH p =
     (case pack_H (fst p) of
        Inl e \<Rightarrow> Inl e
      | Inr x \<Rightarrow> (case pack_H (snd p) of Inl e \<Rightarrow> Inl e | Inr y \<Rightarrow> Inr (x @ y)))"

definition pack_hhh :: "int \<times> int \<times> int \<Rightarrow> error + byte list" where
  "pack_hhh p =
     (case pack_h (fst p) of
        Inl e \<Rightarrow> Inl e
      | Inr x \<Rightarrow>
          (case pack_h (fst (snd p)) of
             Inl e \<Rightarrow> Inl e
           | Inr y \<Rightarrow>
               (case pack_h (snd (snd p)) of Inl e \<Rightarrow> Inl e | Inr z \<Rightarrow> Inr (x @ y @ z))))"

type_synonym vec2 = "f32 \<times> f32"
type_synonym vec3 = "f32 \<times> f32 \<times> f32"

definition pack_fff :: "(f32 \<Rightarrow> byte list) \<Rightarrow> vec3 \<Rightarrow> error + byte list" where
  "pack_fff pack_f v = Inr (pack_f (fst v) @ pack_f (fst (snd v)) @ pack_f (snd (snd v)))"

text \<open>
  The file under construction: the bytes written so far, and the exception that ended
  the writing, if any. The file is opened with mode \<open>wb\<close> inside a \<open>with\<close> block, so
  the bytes written before an exception stay in the file when the block closes it.
  \<open>writestruct\<close> is \<open>file.write(struct.pack(s, *args))\<close>; once an exception is raised no
  later statement runs.
\<close>

type_synonym outfile = "byte list \<times> error option"

definition writestruct :: "error + byte list \<Rightarrow> outfile \<Rightarrow> outfile" where
  "writestruct packed out =
     (case snd out of
        Some e \<Rightarrow> out
      | None \<Rightarrow> (case packed of Inl e \<Rightarrow> (fst out, Some e) | Inr p \<Rightarrow> (fst out @ p, None)))"

definition py_assert :: "bool \<Rightarrow> error \<Rightarrow> outfile \<Rightarrow> outfile" where
  "py_assert ok e out =
     (case snd out of Some e' \<Rightarrow> out | None \<Rightarrow> (if ok then out else (fst out, Some e)))"

subsection \<open>Quantisation\<close>

text \<open>
  \<open>clamp\<close> (lines 71 to 74; the message it prints is left out). The quantiser of a
  UV component is the expression \<open>int(clamp(x) * 65535)\<close> that line 377 applies to U,
  and \<open>encodeUV\<close> applies it to both components. Line 377 itself is \<open>export_uv\<close>: its
  second component is \<open>int((1 - clamp(v)) * 65535)\<close>, which is the quantiser applied to
  \<open>1 - v\<close> (\<open>export_uv_flip\<close> below). \<open>encodeNormal\<close> is line 380. The components
  are evaluated from left to right, and the first exception ends the evaluation.
\<close>

definition clamp :: "pyfloat \<Rightarrow> pyfloat \<Rightarrow> pyfloat \<Rightarrow> pyfloat" where
  "clamp val minimum maximum = py_max (py_min val maximum) minimum"

definition quantize_u16 :: "pyfloat \<Rightarrow> error + int" where
  "quantize_u16 x = py_int (float_times (clamp x (Finite 0) (Finite 1)) 65535)"

definition quantize_flipped_u16 :: "pyfloat \<Rightarrow> error + int" where
  "quantize_flipped_u16 x = py_int (float_times (one_minus (clamp x (Finite 0) (Finite 1))) 65535)"

definition quantize_i16 :: "pyfloat \<Rightarrow> error + int" where
  "quantize_i16 n = py_int (float_times (clamp n (Finite (- 1)) (Finite 1)) 32767)"

definition pair_results :: "error + 'a \<Rightarrow> error + 'b \<Rightarrow> error + ('a \<times> 'b)" where
  "pair_results a b =
     (case a of Inl e \<Rightarrow> Inl e | Inr x \<Rightarrow> (case b of Inl e \<Rightarrow> Inl e | Inr y \<Rightarrow> Inr (x, y)))"

definition encodeUV :: "pyfloat \<times> pyfloat \<Rightarrow> error + (int \<times> int)" where
  "encodeUV p = pair_results (quantize_u16 (fst p)) (quantize_u16 (snd p))"

definition export_uv :: "pyfloat \<times> pyfloat \<Rightarrow> error + (int \<times> int)" where
  "export_uv p = pair_results (quantize_u16 (fst p)) (quantize_flipped_u16 (snd p))"

definition encodeNormal :: "pyfloat \<times> pyfloat \<times> pyfloat \<Rightarrow> error + (int \<times> int \<times> int)" where
  "encodeNormal v =
     pair_results (quantize_i16 (fst v))
       (pair_results (quantize_i16 (fst (snd v))) (quantize_i16 (snd (snd v))))"

definition and_then :: "error + 'a \<Rightarrow> ('a \<Rightarrow> error + 'b) \<Rightarrow> error + 'b" where
  "and_then r f = (case r of Inl e \<Rightarrow> Inl e | Inr x \<Rightarrow> f x)"

definition values2 :: "vec2 \<Rightarrow> pyfloat \<times> pyfloat" where
  "values2 p = (f32_value (fst p), f32_value (snd p))"

definition values3 :: "vec3 \<Rightarrow> pyfloat \<times> pyfloat \<times> pyfloat" where
  "values3 v = (f32_value (fst v), f32_value (fst (snd v)), f32_value (snd (snd v)))"

subsection \<open>The vertex welding: \<open>Vert\<close> and \<open>Verts\<close>\<close>

text \<open>
  \<open>vec_similar\<close> (line 315), and what it is on vectors of three and of two
  components.
\<close>

definition vec_similar :: "f32 list \<Rightarrow> f32 list \<Rightarrow> bool" where
  "vec_similar v1 v2 =
     py_less (vec_length (map2 float_sub (map f32_value v1) (map f32_value v2)))
       (Finite (1 / 100))"

definition vec_similar3 :: "vec3 \<Rightarrow> vec3 \<Rightarrow> bool" where
  "vec_similar3 v1 v2 =
     vec_similar [fst v1, fst (snd v1), snd (snd v1)] [fst v2, fst (snd v2), snd (snd v2)]"

definition vec_similar2 :: "vec2 \<Rightarrow> vec2 \<Rightarrow> bool" where
  "vec_similar2 v1 v2 = vec_similar [fst v1, snd v1] [fst v2, snd v2]"

text \<open>
  A \<open>Vert\<close> has its \<open>index\<close> from the moment it is stored (line 301); the model gives
  the new instance that index at once, since \<open>simmilar\<close> does not read it and an
  instance that is not stored is dropped.
\<close>

record Vert =
  coords :: vec3
  normal :: vec3
  uv :: "vec2 option"
  index :: nat

definition simmilar :: "Vert \<Rightarrow> Vert \<Rightarrow> bool" where
  "simmilar self other =
     (vec_similar3 (coords self) (coords other)
      \<and> vec_similar3 (normal self) (normal other)
      \<and> (case uv self of
            None \<Rightarrow> True
          | Some a \<Rightarrow> (case uv other of None \<Rightarrow> True | Some b \<Rightarrow> vec_similar2 a b)))"

text \<open>
  \<open>_verts\<close> and \<open>_by_blender_index\<close> are attributes of the class \<open>Verts\<close> (lines 292
  and 293), not of an instance: \<open>Verts()\<close> (line 354) makes an object that reads and
  appends to the lists of the class. They are the state of the module, \<open>Verts_init\<close>
  when the module is loaded, and every export takes and returns it. A
  \<open>defaultdict(list)\<close> is a total function whose default is the empty list.
\<close>

record Verts =
  cls_verts :: "Vert list"
  cls_by_blender_index :: "int \<Rightarrow> Vert list"

definition Verts_init :: Verts where
  "Verts_init = \<lparr>cls_verts = [], cls_by_blender_index = (\<lambda>k. [])\<rparr>"

definition get :: "Verts \<Rightarrow> vec3 \<Rightarrow> vec3 \<Rightarrow> int \<Rightarrow> vec2 option \<Rightarrow> Verts \<times> Vert" where
  "get self co no blender_index uvo =
     (let inst = \<lparr>coords = co, normal = no, uv = uvo, index = length (cls_verts self)\<rparr>
      in case find (simmilar inst) (cls_by_blender_index self blender_index) of
           Some other \<Rightarrow> (self, other)
         | None \<Rightarrow>
             (\<lparr>cls_verts = cls_verts self @ [inst],
               cls_by_blender_index = (cls_by_blender_index self)
                 (blender_index := cls_by_blender_index self blender_index @ [inst])\<rparr>,
              inst))"

subsection \<open>The mesh of the host\<close>

text \<open>
  What the exporters read of the host's mesh: the positions of \<open>mesh.vertices\<close>; of
  \<open>mesh.tessfaces\<close> the vertex ids and the normal of each face; of the faces of
  \<open>to_bmesh(mesh)\<close> the corners, each with the position, normal and index of its vertex
  and the UV of its loop in the first UV layer; and the number of UV layers.
  \<open>bmesh.ops.triangulate\<close> followed by \<open>mesh.update\<close> (lines 340 to 342) is the host's:
  the exporters take it as the parameter \<open>triangulate_op\<close>.
\<close>

record corner =
  vert_co :: vec3
  vert_normal :: vec3
  vert_index :: int
  loop_uv :: vec2

record tessface =
  t_vertices :: "int list"
  t_normal :: vec3

record mesh =
  m_vertices :: "vec3 list"
  m_tessfaces :: "tessface list"
  bm_faces :: "corner list list"
  bm_uv_layers :: nat

definition prepare :: "(mesh \<Rightarrow> mesh) \<Rightarrow> bool \<Rightarrow> mesh \<Rightarrow> mesh" where
  "prepare triangulate_op triangulate m =
     (if triangulate \<or> list_ex (\<lambda>face. length (t_vertices face) \<noteq> 3) (m_tessfaces m)
      then triangulate_op m else m)"

subsection \<open>\<open>save\<close>: writing a BOB file\<close>

text \<open>
  Lines 360 to 366: every corner of every face goes through \<open>verts.get\<close>, with the UV
  of its loop when the mesh has a UV layer (line 363).
\<close>

definition corner_uv :: "nat \<Rightarrow> corner \<Rightarrow> vec2 option" where
  "corner_uv uvl c = (if 0 < uvl then Some (loop_uv c) else None)"

definition get_corner :: "Verts \<Rightarrow> nat \<Rightarrow> corner \<Rightarrow> Verts \<times> Vert" where
  "get_corner self uvl c =
     get self (vert_co c) (vert_normal c) (vert_index c) (corner_uv uvl c)"

fun get_face :: "Verts \<Rightarrow> nat \<Rightarrow> corner list \<Rightarrow> Verts \<times> Vert list" where
  "get_face self uvl [] = (self, [])"
| "get_face self uvl (c # cs) =
     (case get_corner self uvl c of
        (self1, v) \<Rightarrow> (case get_face self1 uvl cs of (self2, vs) \<Rightarrow> (self2, v # vs)))"

fun collect_faces :: "Verts \<Rightarrow> nat \<Rightarrow> corner list list \<Rightarrow> Verts \<times> Vert list list" where
  "collect_faces self uvl [] = (self, [])"
| "collect_faces self uvl (f # fs) =
     (case get_face self uvl f of
        (self1, faceverts) \<Rightarrow>
          (case collect_faces self1 uvl fs of (self2, r) \<Rightarrow> (self2, faceverts # r)))"

text \<open>Lines 373 to 382: one record of 24 bytes for a vertex.\<close>

definition write_vert :: "(f32 \<Rightarrow> byte list) \<Rightarrow> Vert \<Rightarrow> outfile \<Rightarrow> outfile" where
  "write_vert pack_f vert out =
     writestruct (Inr [0, 0])
       (writestruct (and_then (encodeNormal (values3 (normal vert))) pack_hhh)
          (writestruct
             (case uv vert of
                Some p \<Rightarrow> and_then (export_uv (values2 p)) pack_HH
              | None \<Rightarrow> pack_HH (0, 0))
             (writestruct (pack_fff pack_f (coords vert)) out)))"

text \<open>Lines 384 to 387: the assertion on a face, then its indices.\<close>

definition write_face :: "Vert list \<Rightarrow> outfile \<Rightarrow> outfile" where
  "write_face face out =
     fold (\<lambda>vert. writestruct (pack_H (int (index vert)))) face
       (py_assert (length face = 3) MalformedMesh out)"

definition write_bob :: "(f32 \<Rightarrow> byte list) \<Rightarrow> Vert list \<Rightarrow> Vert list list \<Rightarrow> outfile \<Rightarrow> outfile" where
  "write_bob pack_f vs fs out =
     fold write_face fs
       (fold (write_vert pack_f) vs
          (writestruct (pack_I (int (length fs)))
             (writestruct (pack_I (int (length vs))) out)))"

text \<open>
  \<open>save\<close> returns the state of the class \<open>Verts\<close> after the export and the file. The
  export has finished (\<open>{'FINISHED'}\<close>) when the file carries no exception.
\<close>

definition save :: "(f32 \<Rightarrow> byte list) \<Rightarrow> (mesh \<Rightarrow> mesh) \<Rightarrow> Verts \<Rightarrow> bool \<Rightarrow> mesh
    \<Rightarrow> Verts \<times> outfile" where
  "save pack_f triangulate_op self triangulate mesh =
     (let m = prepare triangulate_op triangulate mesh;
          out = writestruct (pack_I 1) (writestruct (pack_I BOB_FILE_ID) ([], None))
      in case collect_faces self (bm_uv_layers m) (bm_faces m) of
           (self', fs) \<Rightarrow> (self', write_bob pack_f (cls_verts self') fs out))"

subsection \<open>\<open>savecob\<close>: writing a COB file\<close>

definition write_tessface :: "tessface \<Rightarrow> outfile \<Rightarrow> outfile" where
  "write_tessface face out =
     fold (\<lambda>vertid. writestruct (pack_I vertid)) (t_vertices face)
       (py_assert (length (t_vertices face) = 3) MalformedMesh out)"

definition savecob :: "(f32 \<Rightarrow> byte list) \<Rightarrow> (mesh \<Rightarrow> mesh) \<Rightarrow> bool \<Rightarrow> mesh \<Rightarrow> outfile" where
  "savecob pack_f triangulate_op triangulate mesh =
     (let m = prepare triangulate_op triangulate mesh
      in fold (\<lambda>face. writestruct (pack_fff pack_f (t_normal face))) (m_tessfaces m)
           (fold write_tessface (m_tessfaces m)
              (fold (\<lambda>co. writestruct (pack_fff pack_f co)) (m_vertices m)
                 (writestruct (pack_I (int (length (m_tessfaces m))))
                    (writestruct (pack_I (int (length (m_vertices m))))
                       (writestruct (pack_I COB_FILE_ID) ([], None)))))))"

subsection \<open>The state of the welding\<close>

text \<open>
  The instance that \<open>get\<close> makes for a corner (line 296 with the arguments of line
  364), with the index \<open>n\<close>, and the candidate that \<open>get\<close> returns for the corner in a
  state where it makes no new one.
\<close>

definition corner_vert :: "nat \<Rightarrow> corner \<Rightarrow> nat \<Rightarrow> Vert" where
  "corner_vert uvl c n =
     \<lparr>coords = vert_co c, normal = vert_normal c, uv = corner_uv uvl c, index = n\<rparr>"

definition resolved :: "Verts \<Rightarrow> nat \<Rightarrow> corner \<Rightarrow> Vert option" where
  "resolved self uvl c =
     find (simmilar (corner_vert uvl c 0)) (cls_by_blender_index self (vert_index c))"

text \<open>
  A corner is finite when the components of its position, of its normal and, in a mesh
  with a UV layer, of its UV are finite numbers: none is an infinity or NaN.
\<close>

definition finite_vec :: "f32 list \<Rightarrow> bool" where
  "finite_vec v = list_all (\<lambda>w. is_finite (f32_value w)) v"

definition finite_corner :: "nat \<Rightarrow> corner \<Rightarrow> bool" where
  "finite_corner uvl c =
     (finite_vec [fst (vert_co c), fst (snd (vert_co c)), snd (snd (vert_co c))]
      \<and> finite_vec [fst (vert_normal c), fst (snd (vert_normal c)), snd (snd (vert_normal c))]
      \<and> (0 < uvl \<longrightarrow> finite_vec [fst (loop_uv c), snd (loop_uv c)]))"

text \<open>
  What holds of the lists of the class \<open>Verts\<close> from the moment the module is loaded:
  the index of a candidate is a position of \<open>_verts\<close>, and the candidates of two
  source indices have different indices.
\<close>

definition wf_Verts :: "Verts \<Rightarrow> bool" where
  "wf_Verts self =
     ((\<forall>b. \<forall>v \<in> set (cls_by_blender_index self b). index v < length (cls_verts self))
      \<and> (\<forall>b b'. \<forall>v \<in> set (cls_by_blender_index self b).
             \<forall>v' \<in> set (cls_by_blender_index self b'). index v = index v' \<longrightarrow> b = b'))"

subsection \<open>The bytes of a vertex and of an index\<close>

text \<open>
  A vertex can be quantised when no component of its UV and of its normal is NaN
  (\<open>int\<close> raises on NaN, lines 377 and 380). \<open>vert_bytes\<close> is the 24 bytes that
  \<open>write_vert\<close> appends for such a vertex (\<open>write_vert_written\<close> below), with the
  integer that a quantiser returns.
\<close>

definition quantizable :: "Vert \<Rightarrow> bool" where
  "quantizable vert =
     ((case uv vert of
         None \<Rightarrow> True
       | Some p \<Rightarrow> f32_value (fst p) \<noteq> NaN \<and> f32_value (snd p) \<noteq> NaN)
      \<and> f32_value (fst (normal vert)) \<noteq> NaN \<and> f32_value (fst (snd (normal vert))) \<noteq> NaN
      \<and> f32_value (snd (snd (normal vert))) \<noteq> NaN)"

definition returned :: "error + int \<Rightarrow> int" where
  "returned r = (case r of Inr n \<Rightarrow> n | Inl e \<Rightarrow> 0)"

definition vert_bytes :: "(f32 \<Rightarrow> byte list) \<Rightarrow> Vert \<Rightarrow> byte list" where
  "vert_bytes pack_f vert =
     pack_f (fst (coords vert)) @ pack_f (fst (snd (coords vert)))
     @ pack_f (snd (snd (coords vert)))
     @ (case uv vert of
          Some p \<Rightarrow> le2 (returned (quantize_u16 (f32_value (fst p))))
                    @ le2 (returned (quantize_flipped_u16 (f32_value (snd p))))
        | None \<Rightarrow> [0, 0, 0, 0])
     @ le2 (returned (quantize_i16 (f32_value (fst (normal vert)))))
     @ le2 (returned (quantize_i16 (f32_value (fst (snd (normal vert))))))
     @ le2 (returned (quantize_i16 (f32_value (snd (snd (normal vert))))))
     @ [0, 0]"

definition index_bytes :: "Vert list \<Rightarrow> byte list" where
  "index_bytes vs = concat (map (\<lambda>vert. le2 (int (index vert))) vs)"

definition bob_header :: "nat \<Rightarrow> nat \<Rightarrow> byte list" where
  "bob_header nverts nfaces = le4 BOB_FILE_ID @ le4 1 @ le4 (int nverts) @ le4 (int nfaces)"

definition cob_header :: "nat \<Rightarrow> nat \<Rightarrow> byte list" where
  "cob_header nverts nfaces = le4 COB_FILE_ID @ le4 (int nverts) @ le4 (int nfaces)"

definition vec3_bytes :: "(f32 \<Rightarrow> byte list) \<Rightarrow> vec3 \<Rightarrow> byte list" where
  "vec3_bytes pack_f v = pack_f (fst v) @ pack_f (fst (snd v)) @ pack_f (snd (snd v))"

subsection \<open>A triangulation\<close>

text \<open>
  A stand-in for the host's triangulation, for the examples: every face becomes the fan
  of triangles around its first corner, and the tessellated faces are cut the same way,
  each triangle with the normal of the face it comes from.
\<close>

fun fan_from :: "'a \<Rightarrow> 'a list \<Rightarrow> 'a list list" where
  "fan_from a (b # c # r) = [a, b, c] # fan_from a (c # r)"
| "fan_from a r = []"

fun fan :: "'a list \<Rightarrow> 'a list list" where
  "fan [] = []"
| "fan (a # r) = fan_from a r"

definition fan_triangulate :: "mesh \<Rightarrow> mesh" where
  "fan_triangulate m =
     m\<lparr>m_tessfaces :=
          concat (map (\<lambda>t. map (\<lambda>ids. \<lparr>t_vertices = ids, t_normal = t_normal t\<rparr>)
                              (fan (t_vertices t)))
                  (m_tessfaces m)),
        bm_faces := concat (map fan (bm_faces m))\<rparr>"

subsection \<open>Example meshes\<close>

text \<open>
  The floats of the examples: 1, 2, 3, 5, \<open>-1\<close>, the positive infinity and a NaN;
  0 is 0.
\<close>

definition f_1 :: f32 where "f_1 = 0x3F800000"
definition f_2 :: f32 where "f_2 = 0x40000000"
definition f_3 :: f32 where "f_3 = 0x40400000"
definition f_5 :: f32 where "f_5 = 0x40A00000"
definition f_minus_1 :: f32 where "f_minus_1 = 0xBF800000"
definition f_inf :: f32 where "f_inf = 0x7F800000"
definition f_nan :: f32 where "f_nan = 0x7FC00000"

text \<open>
  Two triangles with a UV layer, the second five units above the first; a pentagon,
  which the host tessellates into three triangles, and a quad, both without UVs.
\<close>

definition mesh_A :: mesh where
  "mesh_A =
     \<lparr>m_vertices = [(0, 0, 0), (f_1, 0, 0), (0, f_1, 0)],
      m_tessfaces = [\<lparr>t_vertices = [0, 1, 2], t_normal = (0, 0, f_1)\<rparr>],
      bm_faces =
        [[\<lparr>vert_co = (0, 0, 0), vert_normal = (0, 0, f_1), vert_index = 0, loop_uv = (0, 0)\<rparr>,
          \<lparr>vert_co = (f_1, 0, 0), vert_normal = (0, 0, f_1), vert_index = 1, loop_uv = (f_1, 0)\<rparr>,
          \<lparr>vert_co = (0, f_1, 0), vert_normal = (0, 0, f_1), vert_index = 2, loop_uv = (0, f_1)\<rparr>]],
      bm_uv_layers = 1\<rparr>"

definition mesh_B :: mesh where
  "mesh_B =
     \<lparr>m_vertices = [(0, 0, f_5), (f_1, 0, f_5), (0, f_1, f_5)],
      m_tessfaces = [\<lparr>t_vertices = [0, 1, 2], t_normal = (0, 0, f_1)\<rparr>],
      bm_faces =
        [[\<lparr>vert_co = (0, 0, f_5), vert_normal = (0, 0, f_1), vert_index = 0, loop_uv = (0, 0)\<rparr>,
          \<lparr>vert_co = (f_1, 0, f_5), vert_normal = (0, 0, f_1), vert_index = 1, loop_uv = (f_1, 0)\<rparr>,
          \<lparr>vert_co = (0, f_1, f_5), vert_normal = (0, 0, f_1), vert_index = 2, loop_uv = (0, f_1)\<rparr>]],
      bm_uv_layers = 1\<rparr>"

text \<open>
  The vertices that the welding makes of \<open>mesh_A\<close>, and of \<open>mesh_B\<close> when the first
  of them gets the index \<open>n\<close>.
\<close>

definition mesh_A_verts :: "Vert list" where
  "mesh_A_verts =
     [\<lparr>coords = (0, 0, 0), normal = (0, 0, f_1), uv = Some (0, 0), index = 0\<rparr>,
      \<lparr>coords = (f_1, 0, 0), normal = (0, 0, f_1), uv = Some (f_1, 0), index = 1\<rparr>,
      \<lparr>coords = (0, f_1, 0), normal = (0, 0, f_1), uv = Some (0, f_1), index = 2\<rparr>]"

definition mesh_B_verts :: "nat \<Rightarrow> Vert list" where
  "mesh_B_verts n =
     [\<lparr>coords = (0, 0, f_5), normal = (0, 0, f_1), uv = Some (0, 0), index = n\<rparr>,
      \<lparr>coords = (f_1, 0, f_5), normal = (0, 0, f_1), uv = Some (f_1, 0), index = n + 1\<rparr>,
      \<lparr>coords = (0, f_1, f_5), normal = (0, 0, f_1), uv = Some (0, f_1), index = n + 2\<rparr>]"

text \<open>A corner without UV in the plane \<open>z = 0\<close>, and the \<open>Vert\<close> it becomes.\<close>

definition flat_corner :: "f32 \<Rightarrow> f32 \<Rightarrow> int \<Rightarrow> corner" where
  "flat_corner x y i =
     \<lparr>vert_co = (x, y, 0), vert_normal = (0, 0, f_1), vert_index = i, loop_uv = (0, 0)\<rparr>"

definition flat_vert :: "f32 \<Rightarrow> f32 \<Rightarrow> nat \<Rightarrow> Vert" where
  "flat_vert x y i = \<lparr>coords = (x, y, 0), normal = (0, 0, f_1), uv = None, index = i\<rparr>"

definition pentagon :: mesh where
  "pentagon =
     \<lparr>m_vertices = [(0, 0, 0), (f_2, 0, 0), (f_3, f_2, 0), (f_1, f_3, 0), (f_minus_1, f_2, 0)],
      m_tessfaces =
        [\<lparr>t_vertices = [0, 1, 2], t_normal = (0, 0, f_1)\<rparr>,
         \<lparr>t_vertices = [0, 2, 3], t_normal = (0, 0, f_1)\<rparr>,
         \<lparr>t_vertices = [0, 3, 4], t_normal = (0, 0, f_1)\<rparr>],
      bm_faces =
        [[flat_corner 0 0 0, flat_corner f_2 0 1, flat_corner f_3 f_2 2, flat_corner f_1 f_3 3,
          flat_corner f_minus_1 f_2 4]],
      bm_uv_layers = 0\<rparr>"

definition quad :: mesh where
  "quad =
     \<lparr>m_vertices = [(0, 0, 0), (f_1, 0, 0), (f_1, f_1, 0), (0, f_1, 0)],
      m_tessfaces = [\<lparr>t_vertices = [0, 1, 2, 3], t_normal = (0, 0, f_1)\<rparr>],
      bm_faces =
        [[flat_corner 0 0 0, flat_corner f_1 0 1, flat_corner f_1 f_1 2, flat_corner 0 f_1 3]],
      bm_uv_layers = 0\<rparr>"

text \<open>
  The state of the class after the export of 65536 vertices at the origin, each with a
  source index of its own, and a triangle of three further vertices.
\<close>

definition line_vert :: "nat \<Rightarrow> Vert" where
  "line_vert i = flat_vert 0 0 i"

definition line_verts :: "Vert list" where
  "line_verts = map line_vert [0..<65536]"

definition line_state :: Verts where
  "line_state =
     \<lparr>cls_verts = line_verts,
      cls_by_blender_index = (\<lambda>b. if 0 \<le> b \<and> b < 65536 then [line_vert (nat b)] else [])\<rparr>"

definition far_triangle :: mesh where
  "far_triangle =
     \<lparr>m_vertices = [(0, f_1, 0), (f_1, f_1, 0), (0, f_2, 0)],
      m_tessfaces = [\<lparr>t_vertices = [65536, 65537, 65538], t_normal = (0, 0, f_1)\<rparr>],
      bm_faces = [[flat_corner 0 f_1 65536, flat_corner f_1 f_1 65537, flat_corner 0 f_2 65538]],
      bm_uv_layers = 0\<rparr>"

text \<open>
  Two triangles of a mesh with a UV layer that share the corner \<open>inf_corner\<close>, whose
  U is infinite.
\<close>

definition uv_corner :: "f32 \<Rightarrow> f32 \<Rightarrow> int \<Rightarrow> vec2 \<Rightarrow> corner" where
  "uv_corner x y i p =
     \<lparr>vert_co = (x, y, 0), vert_normal = (0, 0, f_1), vert_index = i, loop_uv = p\<rparr>"

definition inf_corner :: corner where
  "inf_corner = uv_corner 0 0 0 (f_inf, 0)"

definition inf_faces :: "corner list list" where
  "inf_faces =
     [[inf_corner, uv_corner f_1 0 1 (f_1, 0), uv_corner f_1 f_1 2 (f_1, f_1)],
      [inf_corner, uv_corner f_1 f_1 2 (f_1, f_1), uv_corner 0 f_1 3 (0, f_1)]]"

text \<open>A triangle without UVs whose first corner has a normal with a NaN component.\<close>

definition nan_vert :: Vert where
  "nan_vert = \<lparr>coords = (0, 0, 0), normal = (0, 0, f_nan), uv = None, index = 0\<rparr>"

definition nan_triangle :: mesh where
  "nan_triangle =
     \<lparr>m_vertices = [(0, 0, 0), (f_1, 0, 0), (0, f_1, 0)],
      m_tessfaces = [\<lparr>t_vertices = [0, 1, 2], t_normal = (0, 0, f_1)\<rparr>],
      bm_faces =
        [[\<lparr>vert_co = (0, 0, 0), vert_normal = (0, 0, f_nan), vert_index = 0, loop_uv = (0, 0)\<rparr>,
          flat_corner f_1 0 1, flat_corner 0 f_1 2]],
      bm_uv_layers = 0\<rparr>"

subsection \<open>Example files\<close>

text \<open>
  A BOB file of format 0 (indices of 8 bits) with 129 vertices, all at the origin, and
  one face whose first index is the byte \<open>0x80\<close>, the vertex 128.
\<close>

definition bob_index8_file :: "byte list" where
  "bob_index8_file =
     [0x37, 0xB2, 0, 0,  0, 0, 0, 0,  129, 0, 0, 0,  1, 0, 0, 0]
     @ concat (replicate 129 (replicate 24 0))
     @ [0x80, 0, 1]"

text \<open>
  A COB file with the vertices \<open>(0, 0, 0)\<close>, \<open>(1, 0, 0)\<close> and \<open>(0, 1, 0)\<close>, the face
  \<open>(0, 1, 2)\<close> and its normal \<open>(0, 0, 1)\<close>.
\<close>

definition cob_example :: "byte list" where
  "cob_example =
     [0x9A, 0x34, 0, 0,  3, 0, 0, 0,  1, 0, 0, 0,
      0, 0, 0, 0,  0, 0, 0, 0,  0, 0, 0, 0,
      0, 0, 0x80, 0x3F,  0, 0, 0, 0,  0, 0, 0, 0,
      0, 0, 0, 0,  0, 0, 0x80, 0x3F,  0, 0, 0, 0,
      0, 0, 0, 0,  1, 0, 0, 0,  2, 0, 0, 0,
      0, 0, 0, 0,  0, 0, 0, 0,  0, 0, 0x80, 0x3F]"

definition cob_example_mesh :: cob_mesh where
  "cob_example_mesh =
     \<lparr>c_verts = [(0, 0, 0), (f_1, 0, 0), (0, f_1, 0)], c_faces = [(0, 1, 2)]\<rparr>"

subsection \<open>What \<open>loadcob\<close> reads, in closed form\<close>

text \<open>
  The number of bytes \<open>loadcob\<close> reads of a file that it accepts, and the mesh it decodes
  from them; \<open>loadcob_run_eq\<close> below proves that they describe \<open>loadcob_run\<close>.
\<close>

definition cob_read_size :: "byte list \<Rightarrow> nat" where
  "cob_read_size bs = 12 + 12 * nat (unpack_I (take 4 (drop 4 bs)))
       + 4 * nat (unpack_I (take 4 (drop 8 bs)) * 3)"

definition cob_decoded :: "byte list \<Rightarrow> cob_mesh" where
  "cob_decoded bs =
     \<lparr>c_verts = map (\<lambda>i. unpack_fff (take 12 (drop (12 * i) (drop 12 bs))))
                  [0..<nat (unpack_I (take 4 (drop 4 bs)))],
      c_faces = group_faces (map (\<lambda>i. unpack_I (take 4 (drop (4 * i)
                  (drop (12 * nat (unpack_I (take 4 (drop 4 bs)))) (drop 12 bs)))))
                  [0..<nat (unpack_I (take 4 (drop 8 bs)) * 3)])\<rparr>"

section \<open>Floats\<close>

lemma f32_value_examples:
  "f32_value 0 = Finite 0"
  "f32_value f_1 = Finite 1"
  "f32_value f_2 = Finite 2"
  "f32_value f_3 = Finite 3"
  "f32_value f_5 = Finite 5"
  "f32_value f_minus_1 = Finite (- 1)"
  "f32_value f_inf = PInf"
  "f32_value 0xFF800000 = NInf"
  "f32_value f_nan = NaN"
  "f32_value 0x80000000 = Finite 0"
  by (simp_all add: f32_value_def Let_def pow2_def f_1_def f_2_def f_3_def f_5_def
      f_minus_1_def f_inf_def f_nan_def)

lemma pow2_pos: "0 < pow2 e"
  by (simp add: pow2_def)

lemma round_half_even_ge: "real_of_int k \<le> q \<Longrightarrow> k \<le> round_half_even q"
  by (auto simp add: round_half_even_def le_floor_iff) linarith+

lemma round_half_even_le: "q \<le> real_of_int k \<Longrightarrow> round_half_even q \<le> k"
  unfolding round_half_even_def
  by (auto simp add: floor_le_iff)

lemma round_half_even_int: "round_half_even (real_of_int k) = k"
  by (simp add: round_half_even_def)

lemma double_exponent_nonpos:
  assumes "x \<noteq> 0" and "\<bar>x\<bar> < 9007199254740992"
  shows "double_exponent x \<le> 0"
proof -
  have "\<bar>x\<bar> < 2 powr 53"
    using assms(2) by simp
  then have "log 2 \<bar>x\<bar> < 53"
    using assms(1) by (simp add: log_less_iff)
  then have "\<lfloor>log 2 \<bar>x\<bar>\<rfloor> \<le> 52"
    by (simp add: floor_le_iff)
  then show ?thesis
    by (simp add: double_exponent_def)
qed

lemma pow2_nonpos: "e \<le> 0 \<Longrightarrow> pow2 e = 1 / 2 ^ nat (- e)"
  by (cases "e = 0") (simp_all add: pow2_def)

text \<open>Rounding does not cross an integer, for a value below \<open>2^53\<close>.\<close>

lemma round_double_between:
  assumes "real_of_int a \<le> x" and "x \<le> real_of_int b" and "\<bar>x\<bar> < 9007199254740992"
  shows "real_of_int a \<le> round_double x \<and> round_double x \<le> real_of_int b"
proof (cases "x = 0")
  case True
  with assms show ?thesis by (simp add: round_double_def)
next
  case False
  define n where "n = nat (- double_exponent x)"
  have p: "pow2 (double_exponent x) = 1 / 2 ^ n"
    unfolding n_def using double_exponent_nonpos [OF False assms(3)] by (rule pow2_nonpos)
  have q: "x / pow2 (double_exponent x) = x * 2 ^ n"
    by (simp add: p)
  have "real_of_int (a * 2 ^ n) \<le> x * 2 ^ n"
    using assms(1) by simp
  then have lo: "a * 2 ^ n \<le> round_half_even (x * 2 ^ n)"
    by (rule round_half_even_ge)
  have "x * 2 ^ n \<le> real_of_int (b * 2 ^ n)"
    using assms(2) by simp
  then have hi: "round_half_even (x * 2 ^ n) \<le> b * 2 ^ n"
    by (rule round_half_even_le)
  have r: "round_double x = real_of_int (round_half_even (x * 2 ^ n)) / 2 ^ n"
    using False by (simp add: round_double_def q p)
  have "real_of_int a = real_of_int (a * 2 ^ n) / 2 ^ n" by simp
  also have "\<dots> \<le> real_of_int (round_half_even (x * 2 ^ n)) / 2 ^ n"
    using lo by (intro divide_right_mono) (simp_all only: of_int_le_iff zero_le_power zero_le_numeral)
  finally have 1: "real_of_int a \<le> round_double x" by (simp only: r)
  have "real_of_int (round_half_even (x * 2 ^ n)) / 2 ^ n \<le> real_of_int (b * 2 ^ n) / 2 ^ n"
    using hi by (intro divide_right_mono) (simp_all only: of_int_le_iff zero_le_power zero_le_numeral)
  also have "\<dots> = real_of_int b" by simp
  finally have 2: "round_double x \<le> real_of_int b" by (simp only: r)
  from 1 2 show ?thesis ..
qed

lemma round_double_int:
  assumes "\<bar>k\<bar> < 9007199254740992"
  shows "round_double (real_of_int k) = real_of_int k"
proof -
  have "real_of_int \<bar>k\<bar> < 9007199254740992"
    using assms by (simp only: of_int_less_numeral_iff)
  then have "\<bar>real_of_int k\<bar> < 9007199254740992"
    by simp
  then show ?thesis
    using round_double_between [of k "real_of_int k" k] by simp
qed

lemma round_double_0: "round_double 0 = 0"
  by (simp add: round_double_def)

lemma round_double_nonneg: "0 \<le> x \<Longrightarrow> 0 \<le> round_double x"
proof -
  assume "0 \<le> x"
  then have "real_of_int 0 \<le> x / pow2 (double_exponent x)"
    using pow2_pos [of "double_exponent x"] by simp
  then have "0 \<le> round_half_even (x / pow2 (double_exponent x))"
    by (rule round_half_even_ge)
  then show ?thesis
    using pow2_pos [of "double_exponent x"] by (simp add: round_double_def)
qed

lemma round_double_nonpos: "x \<le> 0 \<Longrightarrow> round_double x \<le> 0"
proof -
  assume "x \<le> 0"
  then have "x / pow2 (double_exponent x) \<le> real_of_int 0"
    using pow2_pos [of "double_exponent x"] by (simp add: divide_nonpos_pos)
  then have "round_half_even (x / pow2 (double_exponent x)) \<le> 0"
    by (rule round_half_even_le)
  then show ?thesis
    using pow2_pos [of "double_exponent x"]
    by (simp add: round_double_def mult_nonpos_nonneg)
qed

lemma pow2_powr: "pow2 e = 2 powr real_of_int e"
  by (simp add: pow2_def powr_real_of_int divide_inverse)

lemma double_exponent_eq:
  assumes "pow2 k \<le> \<bar>x\<bar>" and "\<bar>x\<bar> < pow2 (k + 1)" and "- 1022 \<le> k"
  shows "double_exponent x = k - 52"
proof -
  have pos: "0 < \<bar>x\<bar>"
    using assms(1) pow2_pos [of k] by linarith
  have "real_of_int k \<le> log 2 \<bar>x\<bar>"
    using assms(1) pos by (simp add: le_log_iff pow2_powr)
  moreover have "log 2 \<bar>x\<bar> < real_of_int k + 1"
    using assms(2) pos by (simp add: log_less_iff pow2_powr)
  ultimately have "\<lfloor>log 2 \<bar>x\<bar>\<rfloor> = k"
    by (simp add: floor_unique)
  with assms(3) show ?thesis
    by (simp add: double_exponent_def)
qed

lemma round_double_ge_1:
  assumes "1 \<le> x"
  shows "1 \<le> round_double x"
proof (cases "x < 9007199254740992")
  case True
  have "x \<le> real_of_int \<lceil>x\<rceil>" by simp
  with assms True show ?thesis
    using round_double_between [of 1 x "\<lceil>x\<rceil>"] by simp
next
  case False
  define l where "l = \<lfloor>log 2 \<bar>x\<bar>\<rfloor>"
  have x: "0 < x" "\<bar>x\<bar> = x" using assms by simp_all
  have "2 powr 53 \<le> x" using False by simp
  then have "53 \<le> log 2 x"
    using x(1) by (simp add: le_log_iff)
  then have l53: "53 \<le> l"
    unfolding l_def x(2) by (simp add: le_floor_iff)
  then have e: "double_exponent x = l - 52"
    by (simp add: double_exponent_def l_def)
  have "real_of_int l \<le> log 2 x"
    unfolding l_def x(2) by simp
  then have "pow2 l \<le> x"
    using x(1) by (simp add: le_log_iff pow2_powr)
  moreover have "pow2 (l - 52) \<le> pow2 l"
    by (simp add: pow2_powr)
  ultimately have "pow2 (l - 52) \<le> x" by linarith
  then have "real_of_int 1 \<le> x / pow2 (l - 52)"
    using pow2_pos [of "l - 52"] by (simp add: pos_le_divide_eq)
  then have r: "1 \<le> round_half_even (x / pow2 (l - 52))"
    by (rule round_half_even_ge)
  have "(1 :: real) \<le> pow2 (l - 52)"
    using l53 by (simp add: pow2_def)
  with r have "1 * 1 \<le> real_of_int (round_half_even (x / pow2 (l - 52))) * pow2 (l - 52)"
    by (intro mult_mono) simp_all
  then show ?thesis
    using x(1) by (simp add: round_double_def e)
qed

lemma round_double_exact:
  assumes "pow2 k \<le> \<bar>x\<bar>" and "\<bar>x\<bar> < pow2 (k + 1)" and "- 1022 \<le> k"
    and "x / pow2 (k - 52) = real_of_int n"
  shows "round_double x = x"
proof -
  have e: "double_exponent x = k - 52"
    using assms(1-3) by (rule double_exponent_eq)
  have x: "x \<noteq> 0"
    using assms(1) pow2_pos [of k] by auto
  have "real_of_int n * pow2 (k - 52) = x"
    using pow2_pos [of "k - 52"] by (simp add: assms(4) [symmetric])
  then show ?thesis
    using x by (simp add: round_double_def e assms(4) round_half_even_int)
qed

text \<open>\<open>32767.5\<close> and \<open>16383.5\<close> are doubles.\<close>

lemma round_double_half_integers:
  "round_double (65535 / 2) = 65535 / 2"
  "round_double (32767 / 2) = 32767 / 2"
  "round_double (- (32767 / 2)) = - (32767 / 2)"
proof -
  show "round_double (65535 / 2) = 65535 / 2"
    by (rule round_double_exact [where k = 14 and n = 9007061815787520])
      (simp_all add: pow2_def)
  show "round_double (32767 / 2) = 32767 / 2"
    by (rule round_double_exact [where k = 13 and n = 9006924376834048])
      (simp_all add: pow2_def)
  show "round_double (- (32767 / 2)) = - (32767 / 2)"
    by (rule round_double_exact [where k = 13 and n = "- 9006924376834048"])
      (simp_all add: pow2_def)
qed

text \<open>\<open>1 - 2\<^sup>-\<^sup>6\<^sup>0\<close> is not a double: the nearest one is 1.\<close>

lemma round_double_below_1: "round_double (1 - 1 / 2 ^ 60) = 1"
proof -
  define x :: real where "x = 1 - 1 / 2 ^ 60"
  have "double_exponent x = - 1 - 52"
    by (rule double_exponent_eq) (simp_all add: pow2_def x_def)
  then have e: "double_exponent x = - 53" by simp
  have p: "pow2 (- 53) = 1 / 9007199254740992"
    by (simp add: pow2_def)
  have f: "\<lfloor>x * 9007199254740992\<rfloor> = 9007199254740991"
    by (rule floor_unique) (simp_all add: x_def)
  have r: "round_half_even (x * 9007199254740992) = 9007199254740992"
    unfolding round_half_even_def f by (simp add: x_def)
  have "x \<noteq> 0" by (simp add: x_def)
  then have "round_double x = 1"
    by (simp add: round_double_def e p r)
  then show ?thesis by (simp only: x_def)
qed

subsection \<open>The quantisers\<close>

lemma clamp_Finite:
  "lo \<le> hi \<Longrightarrow> clamp (Finite a) (Finite lo) (Finite hi) = Finite (max (min a hi) lo)"
  by (auto simp add: clamp_def py_min_def py_max_def)

lemma clamp_infinite:
  "lo \<le> hi \<Longrightarrow> clamp PInf (Finite lo) (Finite hi) = Finite hi"
  "lo \<le> hi \<Longrightarrow> clamp NInf (Finite lo) (Finite hi) = Finite lo"
  "clamp NaN (Finite lo) (Finite hi) = NaN"
  by (auto simp add: clamp_def py_min_def py_max_def)

lemma round_double_scaled:
  assumes "real_of_int a \<le> x" and "x \<le> real_of_int b" and "\<bar>a\<bar> \<le> 65535" and "\<bar>b\<bar> \<le> 65535"
  shows "real_of_int a \<le> round_double x \<and> round_double x \<le> real_of_int b"
proof -
  have "real_of_int \<bar>a\<bar> \<le> 65535" "real_of_int \<bar>b\<bar> \<le> 65535"
    using assms(3,4) by (simp_all only: of_int_le_numeral_iff)
  then have "\<bar>x\<bar> < 9007199254740992"
    using assms(1,2) by (simp add: abs_if split: if_splits)
  with assms(1,2) show ?thesis
    by (rule round_double_between)
qed

lemma py_int_between:
  "real_of_int a \<le> x \<Longrightarrow> x \<le> real_of_int b \<Longrightarrow>
     \<exists>n. py_int (Finite x) = Inr n \<and> a \<le> n \<and> n \<le> b"
  by (auto simp add: py_int_def le_floor_iff floor_le_iff le_ceiling_iff ceiling_le_iff)

lemma quantize_u16_Finite:
  "\<exists>n. quantize_u16 (Finite a) = Inr n \<and> 0 \<le> n \<and> n \<le> 65535"
proof -
  have c: "0 \<le> max (min a 1) 0 * 65535" "max (min a 1) 0 * 65535 \<le> 65535"
    by (simp_all add: max_def min_def)
  have "real_of_int 0 \<le> round_double (max (min a 1) 0 * 65535)
      \<and> round_double (max (min a 1) 0 * 65535) \<le> real_of_int 65535"
    by (rule round_double_scaled) (use c in simp_all)
  then show ?thesis
    using py_int_between [of 0 "round_double (max (min a 1) 0 * 65535)" 65535]
    by (simp add: quantize_u16_def clamp_Finite float_times_def)
qed

lemma one_minus_clamp:
  "one_minus (clamp v (Finite 0) (Finite 1)) = clamp (one_minus v) (Finite 0) (Finite 1)"
proof (cases v)
  case (Finite a)
  have r1: "round_double 1 = 1" and r0: "round_double 0 = 0"
    using round_double_int [of 1] by (simp_all add: round_double_0)
  consider "a \<le> 0" | "1 \<le> a" | "0 < a" "a < 1" by linarith
  then show ?thesis
  proof cases
    case 1
    then have "1 \<le> round_double (1 - a)"
      by (intro round_double_ge_1) simp
    with 1 show ?thesis
      by (simp add: Finite clamp_Finite one_minus_def r1 max_def min_def)
  next
    case 2
    then have "round_double (1 - a) \<le> 0"
      by (intro round_double_nonpos) simp
    with 2 show ?thesis
      by (simp add: Finite clamp_Finite one_minus_def r0 max_def min_def)
  next
    case 3
    then have "real_of_int 0 \<le> round_double (1 - a) \<and> round_double (1 - a) \<le> real_of_int 1"
      by (intro round_double_scaled) simp_all
    with 3 show ?thesis
      by (simp add: Finite clamp_Finite one_minus_def max_def min_def)
  qed
next
  case PInf
  then show ?thesis
    by (simp add: clamp_infinite clamp_Finite one_minus_def round_double_0)
next
  case NInf
  then show ?thesis
    using round_double_int [of 1] by (simp add: clamp_infinite clamp_Finite one_minus_def)
next
  case NaN
  then show ?thesis
    by (simp add: clamp_infinite one_minus_def)
qed

lemma quantize_flipped_u16_eq: "quantize_flipped_u16 v = quantize_u16 (one_minus v)"
  by (simp add: quantize_flipped_u16_def quantize_u16_def one_minus_clamp)

lemma quantize_u16_range:
  "x \<noteq> NaN \<Longrightarrow> \<exists>n. quantize_u16 x = Inr n \<and> 0 \<le> n \<and> n \<le> 65535"
proof (cases x)
  case (Finite a)
  then show ?thesis by (simp add: quantize_u16_Finite)
next
  case PInf
  have "quantize_u16 PInf = quantize_u16 (Finite 1)"
    by (simp add: quantize_u16_def clamp_infinite clamp_Finite)
  with PInf show ?thesis by (simp add: quantize_u16_Finite)
next
  case NInf
  have "quantize_u16 NInf = quantize_u16 (Finite 0)"
    by (simp add: quantize_u16_def clamp_infinite clamp_Finite)
  with NInf show ?thesis by (simp add: quantize_u16_Finite)
qed simp

lemma quantize_flipped_u16_range:
  "x \<noteq> NaN \<Longrightarrow> \<exists>n. quantize_flipped_u16 x = Inr n \<and> 0 \<le> n \<and> n \<le> 65535"
  unfolding quantize_flipped_u16_eq
  by (rule quantize_u16_range) (simp add: one_minus_def split: pyfloat.splits)

lemma quantize_i16_Finite:
  "\<exists>n. quantize_i16 (Finite a) = Inr n \<and> - 32767 \<le> n \<and> n \<le> 32767"
proof -
  have c: "- 32767 \<le> max (min a 1) (- 1) * 32767" "max (min a 1) (- 1) * 32767 \<le> 32767"
    by (simp_all add: max_def min_def)
  have "real_of_int (- 32767) \<le> round_double (max (min a 1) (- 1) * 32767)
      \<and> round_double (max (min a 1) (- 1) * 32767) \<le> real_of_int 32767"
    by (rule round_double_scaled) (use c in simp_all)
  then show ?thesis
    using py_int_between [of "- 32767" "round_double (max (min a 1) (- 1) * 32767)" 32767]
    by (simp add: quantize_i16_def clamp_Finite float_times_def)
qed

lemma quantize_i16_range:
  "x \<noteq> NaN \<Longrightarrow> \<exists>n. quantize_i16 x = Inr n \<and> - 32767 \<le> n \<and> n \<le> 32767"
proof (cases x)
  case (Finite a)
  then show ?thesis by (simp add: quantize_i16_Finite)
next
  case PInf
  have "quantize_i16 PInf = quantize_i16 (Finite 1)"
    by (simp add: quantize_i16_def clamp_infinite clamp_Finite)
  with PInf show ?thesis by (simp add: quantize_i16_Finite)
next
  case NInf
  have "quantize_i16 NInf = quantize_i16 (Finite (- 1))"
    by (simp add: quantize_i16_def clamp_infinite clamp_Finite)
  with NInf show ?thesis by (simp add: quantize_i16_Finite)
qed simp

lemma quantize_NaN:
  "quantize_u16 NaN = Inl ValueError"
  "quantize_flipped_u16 NaN = Inl ValueError"
  "quantize_i16 NaN = Inl ValueError"
  by (simp_all add: quantize_u16_def quantize_flipped_u16_def quantize_i16_def clamp_infinite
      one_minus_def float_times_def py_int_def)

text \<open>A value that the clamp moves to a bound, and the two zeros.\<close>

lemma quantize_u16_low: "a \<le> 0 \<Longrightarrow> quantize_u16 (Finite a) = Inr 0"
  by (simp add: quantize_u16_def clamp_Finite float_times_def round_double_0 py_int_def
      max_def min_def)

lemma quantize_u16_high: "1 \<le> a \<Longrightarrow> quantize_u16 (Finite a) = Inr 65535"
  using round_double_int [of 65535]
  by (simp add: quantize_u16_def clamp_Finite float_times_def py_int_def max_def min_def)

lemma quantize_i16_low: "a \<le> - 1 \<Longrightarrow> quantize_i16 (Finite a) = Inr (- 32767)"
  using round_double_int [of "- 32767"]
  by (simp add: quantize_i16_def clamp_Finite float_times_def py_int_def max_def min_def)

lemma quantize_i16_high: "1 \<le> a \<Longrightarrow> quantize_i16 (Finite a) = Inr 32767"
  using round_double_int [of 32767]
  by (simp add: quantize_i16_def clamp_Finite float_times_def py_int_def max_def min_def)

lemma quantize_i16_zero: "quantize_i16 (Finite 0) = Inr 0"
  by (simp add: quantize_i16_def clamp_Finite float_times_def round_double_0 py_int_def)

lemma quantize_halves:
  "quantize_u16 (Finite (1 / 2)) = Inr 32767"
  "quantize_i16 (Finite (1 / 2)) = Inr 16383"
  "quantize_i16 (Finite (- (1 / 2))) = Inr (- 16383)"
  by (simp_all add: quantize_u16_def quantize_i16_def clamp_Finite float_times_def
      round_double_half_integers py_int_def)

text \<open>
  The integer of a finite component: the clamped value is scaled, the product is the
  nearest double, and \<open>int\<close> drops its fraction.
\<close>

lemma quantize_u16_floor:
  "quantize_u16 (Finite a) = Inr \<lfloor>round_double (max (min a 1) 0 * 65535)\<rfloor>"
proof -
  have "0 \<le> round_double (max (min a 1) 0 * 65535)"
    by (rule round_double_nonneg) (simp add: max_def min_def)
  then show ?thesis
    by (simp add: quantize_u16_def clamp_Finite float_times_def py_int_def)
qed

lemma quantize_i16_truncate:
  "quantize_i16 (Finite c) =
     Inr (if 0 \<le> c then \<lfloor>round_double (max (min c 1) (- 1) * 32767)\<rfloor>
          else \<lceil>round_double (max (min c 1) (- 1) * 32767)\<rceil>)"
proof (cases "0 \<le> c")
  case True
  then have "0 \<le> round_double (max (min c 1) (- 1) * 32767)"
    by (intro round_double_nonneg) (simp add: max_def min_def)
  with True show ?thesis
    by (simp add: quantize_i16_def clamp_Finite float_times_def py_int_def)
next
  case False
  then have "round_double (max (min c 1) (- 1) * 32767) \<le> 0"
    by (intro round_double_nonpos) (simp add: max_def min_def)
  then have "round_double (max (min c 1) (- 1) * 32767) < 0
      \<or> round_double (max (min c 1) (- 1) * 32767) = 0"
    by linarith
  with False show ?thesis
    by (auto simp add: quantize_i16_def clamp_Finite float_times_def py_int_def)
qed

lemma export_uv_flip: "export_uv (u, v) = encodeUV (u, one_minus v)"
  by (simp add: export_uv_def encodeUV_def quantize_flipped_u16_eq)

text \<open>
  The rounding of \<open>1 - v\<close> is part of what is written: for \<open>v = 2\<^sup>-\<^sup>6\<^sup>0\<close> the code
  computes \<open>1 - v = 1.0\<close> and writes 65535.
\<close>

lemma export_uv_tiny_v: "export_uv (Finite 0, Finite (1 / 2 ^ 60)) = Inr (0, 65535)"
proof -
  have "round_double (1152921504606846975 / 1152921504606846976) = 1"
    using round_double_below_1 by simp
  then have "quantize_flipped_u16 (Finite (1 / 2 ^ 60)) = Inr 65535"
    using round_double_int [of 65535]
    by (simp add: quantize_flipped_u16_def clamp_Finite one_minus_def float_times_def
        py_int_def)
  then show ?thesis
    by (simp add: export_uv_def quantize_u16_low pair_results_def)
qed

section \<open>Quantisation at the encode boundary\<close>

text \<open>
  C5. \<open>encodeUV(1.5, -0.2)\<close> is \<open>(65535, 0)\<close> and \<open>encodeNormal(2.0, -2.0, 0.0)\<close> is
  \<open>(32767, -32767, 0)\<close>, where \<open>-0.2\<close> is the double nearest to \<open>-1/5\<close>. The scaled
  value is truncated towards zero, not rounded: \<open>0.5\<close> gives 32767, the integer part
  of \<open>32767.5\<close>, and \<open>-0.5\<close> gives \<open>-16383\<close>, the integer part of \<open>-16383.5\<close>; for
  every finite component, the integer is that of the clamped and scaled value (the
  product is a double), below it for a UV and towards zero for a normal. The pair that
  the export writes for a UV (line 377) is \<open>encodeUV\<close> of the UV with \<open>1 - V\<close> in the
  place of V.
\<close>

theorem quantization_examples:
  "encodeUV (Finite (3 / 2), Finite (round_double (- 1 / 5))) = Inr (65535, 0)
   \<and> encodeNormal (Finite 2, Finite (- 2), Finite 0) = Inr (32767, - 32767, 0)
   \<and> encodeUV (Finite (1 / 2), Finite (1 / 2)) = Inr (32767, 32767)
   \<and> encodeNormal (Finite (1 / 2), Finite (- 1 / 2), Finite 0) = Inr (16383, - 16383, 0)
   \<and> encodeUV (Finite a, Finite b)
       = Inr (\<lfloor>round_double (max (min a 1) 0 * 65535)\<rfloor>,
              \<lfloor>round_double (max (min b 1) 0 * 65535)\<rfloor>)
   \<and> (let t = (\<lambda>c. if 0 \<le> c then \<lfloor>round_double (max (min c 1) (- 1) * 32767)\<rfloor>
                    else \<lceil>round_double (max (min c 1) (- 1) * 32767)\<rceil>)
       in encodeNormal (Finite x, Finite y, Finite z) = Inr (t x, t y, t z))
   \<and> export_uv (u, v) = encodeUV (u, one_minus v)"
proof -
  have "round_double (- 1 / 5) \<le> 0"
    by (rule round_double_nonpos) simp
  then have 1: "encodeUV (Finite (3 / 2), Finite (round_double (- 1 / 5))) = Inr (65535, 0)"
    by (simp add: encodeUV_def quantize_u16_low quantize_u16_high pair_results_def)
  have 2: "encodeNormal (Finite 2, Finite (- 2), Finite 0) = Inr (32767, - 32767, 0)"
    by (simp add: encodeNormal_def quantize_i16_low quantize_i16_high quantize_i16_zero
        pair_results_def)
  have 3: "encodeUV (Finite (1 / 2), Finite (1 / 2)) = Inr (32767, 32767)"
    by (simp add: encodeUV_def quantize_halves pair_results_def)
  have 4: "encodeNormal (Finite (1 / 2), Finite (- 1 / 2), Finite 0) = Inr (16383, - 16383, 0)"
    by (simp add: encodeNormal_def quantize_halves quantize_i16_zero pair_results_def)
  have 5: "encodeUV (Finite a, Finite b)
       = Inr (\<lfloor>round_double (max (min a 1) 0 * 65535)\<rfloor>,
              \<lfloor>round_double (max (min b 1) 0 * 65535)\<rfloor>)"
    by (simp add: encodeUV_def quantize_u16_floor pair_results_def)
  have 6: "(let t = (\<lambda>c. if 0 \<le> c then \<lfloor>round_double (max (min c 1) (- 1) * 32767)\<rfloor>
                    else \<lceil>round_double (max (min c 1) (- 1) * 32767)\<rceil>)
       in encodeNormal (Finite x, Finite y, Finite z) = Inr (t x, t y, t z))"
    by (simp only: Let_def encodeNormal_def fst_conv snd_conv quantize_i16_truncate
        pair_results_def sum.case)
  from 1 2 3 4 5 6 show ?thesis
    by (simp only: export_uv_flip simp_thms)
qed

section \<open>Reading\<close>

subsection \<open>The read loop\<close>

lemma readstruct_eq:
  "readstruct k dec bs = (if length bs < k then Inl Truncated else Inr (dec (take k bs), drop k bs))"
  by (simp add: readstruct_def file_read_def)

lemma read_many_readstruct:
  "read_many (readstruct k dec) n bs =
     (if length bs < k * n then Inl Truncated
      else Inr (map (\<lambda>i. dec (take k (drop (k * i) bs))) [0..<n], drop (k * n) bs))"
proof (induction n arbitrary: bs)
  case 0
  show ?case by simp
next
  case (Suc n)
  have shift: "map (\<lambda>i. dec (take k (drop (k * i) bs))) [0..<Suc n]
      = dec (take k bs) # map (\<lambda>i. dec (take k (drop (k * i) (drop k bs)))) [0..<n]"
    by (simp add: upt_conv_Cons map_Suc_upt [symmetric] add.commute del: upt_Suc)
  show ?case
  proof (cases "length bs < k")
    case True
    then have "length bs < k * Suc n" by (simp add: trans_less_add1)
    with True show ?thesis by (simp add: readstruct_eq [of k dec bs])
  next
    case False
    then show ?thesis
      unfolding shift
      by (auto simp add: readstruct_eq [of k dec bs] Suc.IH add.commute)
  qed
qed

lemma read_many_replicate:
  "(\<And>r. rd (x @ r) = Inr (v, r)) \<Longrightarrow>
     read_many rd n (concat (replicate n x) @ r) = Inr (replicate n v, r)"
  by (induction n) simp_all

lemma read_many_numeral:
  "read_many rd (numeral k) bs =
     (case rd bs of
        Inl e \<Rightarrow> Inl e
      | Inr (x, r) \<Rightarrow>
          (case read_many rd (pred_numeral k) r of
             Inl e \<Rightarrow> Inl e
           | Inr (xs, r') \<Rightarrow> Inr (x # xs, r')))"
  by (simp add: numeral_eq_Suc)

lemma read_many_1:
  "read_many rd 1 bs = (case rd bs of Inl e \<Rightarrow> Inl e | Inr (x, r) \<Rightarrow> Inr ([x], r))"
  by (simp split: sum.splits)

lemmas struct_eval = readstruct_I_def readstruct_H_def readstruct_b_def readstruct_fff_def
  readstruct_vertex_def readstruct_def file_read_def unpack_I_def unpack_H_def unpack_h_def
  unpack_b_def unpack_fff_def unpack_f_def unpack_vertex_def read_many_numeral read_many_1

lemma length_group_faces: "length (group_faces xs) = length xs div 3"
  by (induction xs rule: group_faces.induct) simp_all

lemma le_uint_nonneg: "0 \<le> le_uint bs"
  by (induction bs) simp_all

subsection \<open>A wrong magic number\<close>

text \<open>
  C9. A buffer whose first four bytes, read as a little-endian u32, are not 45623 is
  rejected by \<open>load\<close> with \<open>BadMagic\<close>, and one whose first four bytes are not 13466 is
  rejected by \<open>loadcob\<close> with \<open>BadMagic\<close>: neither returns a mesh.
\<close>

theorem bad_magic_rejected:
  "4 \<le> length bs \<Longrightarrow>
     (unpack_I (take 4 bs) \<noteq> 45623 \<longrightarrow> load bs = Inl BadMagic)
     \<and> (unpack_I (take 4 bs) \<noteq> 13466 \<longrightarrow> loadcob bs = Inl BadMagic)"
  by (simp add: load_def load_run_def loadcob_def loadcob_run_def readstruct_I_def
      readstruct_eq BOB_FILE_ID_def COB_FILE_ID_def)

theorem bad_magic_rejected_witness:
  "load [0x9A, 0x34, 0, 0, 1, 0, 0, 0] = Inl BadMagic
   \<and> loadcob [0x37, 0xB2, 0, 0, 0, 0, 0, 0, 0, 0, 0, 0] = Inl BadMagic"
  using bad_magic_rejected [of "[0x9A, 0x34, 0, 0, 1, 0, 0, 0]"]
    bad_magic_rejected [of "[0x37, 0xB2, 0, 0, 0, 0, 0, 0, 0, 0, 0, 0]"]
  by (simp add: unpack_I_def)

subsection \<open>The indices of format 0\<close>

lemma readstruct_vertex_zero:
  "readstruct_vertex (replicate 24 0 @ r) = Inr (((0, 0, 0), (0, 0), (0, 0, 0)), r)"
  by (simp add: readstruct_vertex_def readstruct_eq unpack_vertex_def unpack_fff_def
      unpack_f_def unpack_H_def unpack_h_def numeral_eq_Suc round_double_0)

text \<open>
  C3. The claim is that an index byte of format 0 is read as an unsigned value, so that
  no decoded index is negative. \<open>load\<close> reads it with the format \<open>b\<close>, a signed byte:
  on the file \<open>bob_index8_file\<close>, whose face names the vertices 128, 0 and 1, the
  decoded face is \<open>(-128, 0, 1)\<close>.
\<close>

theorem load_index8_signed:
  "map_sum id b_faces (load bob_index8_file) = Inr [(- 128, 0, 1)]"
proof -
  have v: "read_many readstruct_vertex 129 (concat (replicate 129 (replicate 24 0)) @ [0x80, 0, 1])
    = Inr (replicate 129 ((0, 0, 0), (0, 0), (0, 0, 0)), [0x80, 0, 1])"
    by (rule read_many_replicate) (rule readstruct_vertex_zero)
  have i: "read_many (read_index 0) 3 [0x80, 0, 1] = Inr ([- 128, 0, 1], [])"
    by (simp add: read_index_def struct_eval)
  show ?thesis
    by (simp add: load_def load_run_def bob_index8_file_def readstruct_I_def readstruct_eq
        unpack_I_def BOB_FILE_ID_def v i)
qed

subsection \<open>The normals of a COB file\<close>

lemma loadcob_run_eq:
  "loadcob_run bs =
     (if length bs < 4 then Inl Truncated
      else if unpack_I (take 4 bs) \<noteq> COB_FILE_ID then Inl BadMagic
      else if length bs < 12 \<or> length bs < cob_read_size bs then Inl Truncated
      else Inr (cob_decoded bs, drop (cob_read_size bs) bs))"
proof -
  let ?vc = "nat (unpack_I (take 4 (drop 4 bs)))"
  let ?fc = "nat (unpack_I (take 4 (drop 8 bs)) * 3)"
  have r1: "readstruct_I bs = (if length bs < 4 then Inl Truncated
      else Inr (unpack_I (take 4 bs), drop 4 bs))"
    by (simp add: readstruct_I_def readstruct_eq)
  have r2: "readstruct_I (drop 4 bs) = (if length bs < 8 then Inl Truncated
      else Inr (unpack_I (take 4 (drop 4 bs)), drop 8 bs))"
    by (auto simp add: readstruct_I_def readstruct_eq)
  have r3: "readstruct_I (drop 8 bs) = (if length bs < 12 then Inl Truncated
      else Inr (unpack_I (take 4 (drop 8 bs)), drop 12 bs))"
    by (auto simp add: readstruct_I_def readstruct_eq)
  have r4: "read_many readstruct_fff ?vc (drop 12 bs) =
      (if length bs - 12 < 12 * ?vc then Inl Truncated
       else Inr (c_verts (cob_decoded bs), drop (12 * ?vc) (drop 12 bs)))"
    by (simp add: readstruct_fff_def read_many_readstruct cob_decoded_def)
  have r5: "read_many readstruct_I ?fc (drop (12 * ?vc) (drop 12 bs)) =
      (if length bs - 12 - 12 * ?vc < 4 * ?fc then Inl Truncated
       else Inr (map (\<lambda>i. unpack_I (take 4 (drop (4 * i) (drop (12 * ?vc) (drop 12 bs))))) [0..<?fc],
          drop (4 * ?fc) (drop (12 * ?vc) (drop 12 bs))))"
    by (simp add: readstruct_I_def read_many_readstruct add.commute)
  have d: "drop (4 * ?fc) (drop (12 * ?vc) (drop 12 bs)) = drop (cob_read_size bs) bs"
    by (simp add: cob_read_size_def add.commute add.left_commute)
  have m: "\<lparr>c_verts = c_verts (cob_decoded bs),
       c_faces = group_faces (map (\<lambda>i. unpack_I (take 4 (drop (4 * i) (drop (12 * ?vc) (drop 12 bs))))) [0..<?fc])\<rparr>
      = cob_decoded bs"
    by (simp add: cob_decoded_def)
  show ?thesis
  proof (cases "length bs < 12")
    case True
    then show ?thesis
      by (simp add: loadcob_run_def r1 r2 r3)
  next
    case False
    show ?thesis
    proof (cases "length bs < cob_read_size bs")
      case True
      with \<open>\<not> length bs < 12\<close> show ?thesis
        by (auto simp add: loadcob_run_def r1 r2 r3 r4 r5 cob_read_size_def simp del: drop_drop)
    next
      case False
      with \<open>\<not> length bs < 12\<close> show ?thesis
        by (auto simp add: loadcob_run_def r1 r2 r3 r4 r5 d m cob_read_size_def
            simp del: drop_drop)
    qed
  qed
qed

lemma take_drop_take: "j + k \<le> N \<Longrightarrow> take k (drop j (take N xs)) = take k (drop j xs)"
  by (simp add: drop_take)

lemma take_drop_agree:
  assumes "take N a = take N b" and "j + k \<le> N"
  shows "take k (drop j a) = take k (drop j b)"
proof -
  have "take k (drop j a) = take k (drop j (take N a))"
    using assms(2) by (simp add: take_drop_take)
  also have "\<dots> = take k (drop j (take N b))"
    by (simp add: assms(1))
  also have "\<dots> = take k (drop j b)"
    using assms(2) by (simp add: take_drop_take)
  finally show ?thesis .
qed

lemma cob_read_size_agree:
  "take N a = take N b \<Longrightarrow> 12 \<le> N \<Longrightarrow> cob_read_size a = cob_read_size b"
  by (simp add: cob_read_size_def take_drop_agree [of N a b 4 4] take_drop_agree [of N a b 8 4])

lemma cob_decoded_agree:
  assumes "take N a = take N b" and "cob_read_size b \<le> N"
  shows "cob_decoded a = cob_decoded b"
proof -
  have n12: "12 \<le> N" using assms(2) by (simp add: cob_read_size_def)
  have vc: "take 4 (drop 4 a) = take 4 (drop 4 b)"
    using assms(1) n12 by (simp add: take_drop_agree [of N a b 4 4])
  have fc: "take 4 (drop 8 a) = take 4 (drop 8 b)"
    using assms(1) n12 by (simp add: take_drop_agree [of N a b 8 4])
  have v: "take 12 (drop (12 * i) (drop 12 a)) = take 12 (drop (12 * i) (drop 12 b))"
    if "i < nat (unpack_I (take 4 (drop 4 b)))" for i
    using that assms(2)
    by (simp add: cob_read_size_def take_drop_agree [OF assms(1)])
  have f: "take 4 (drop (4 * i) (drop (12 * nat (unpack_I (take 4 (drop 4 b)))) (drop 12 a)))
      = take 4 (drop (4 * i) (drop (12 * nat (unpack_I (take 4 (drop 4 b)))) (drop 12 b)))"
    if "i < nat (unpack_I (take 4 (drop 8 b)) * 3)" for i
    using that assms(2)
    by (simp add: cob_read_size_def take_drop_agree [OF assms(1)])
  have V: "map (\<lambda>i. unpack_fff (take 12 (drop (12 * i) (drop 12 a))))
        [0..<nat (unpack_I (take 4 (drop 4 b)))]
      = map (\<lambda>i. unpack_fff (take 12 (drop (12 * i) (drop 12 b))))
        [0..<nat (unpack_I (take 4 (drop 4 b)))]"
    by (rule map_cong) (simp_all only: v atLeastLessThan_iff set_upt)
  have F: "map (\<lambda>i. unpack_I (take 4 (drop (4 * i)
          (drop (12 * nat (unpack_I (take 4 (drop 4 b)))) (drop 12 a)))))
        [0..<nat (unpack_I (take 4 (drop 8 b)) * 3)]
      = map (\<lambda>i. unpack_I (take 4 (drop (4 * i)
          (drop (12 * nat (unpack_I (take 4 (drop 4 b)))) (drop 12 b)))))
        [0..<nat (unpack_I (take 4 (drop 8 b)) * 3)]"
    by (rule map_cong) (simp_all only: f atLeastLessThan_iff set_upt)
  show ?thesis
    by (simp only: cob_decoded_def vc fc V F)
qed

lemma length_cob_decoded:
  "12 + 12 * length (c_verts (cob_decoded bs)) + 12 * length (c_faces (cob_decoded bs))
     = cob_read_size bs"
proof -
  have "0 \<le> unpack_I (take 4 (drop 8 bs))"
    by (simp add: unpack_I_def le_uint_nonneg)
  then have "nat (unpack_I (take 4 (drop 8 bs)) * 3) = 3 * nat (unpack_I (take 4 (drop 8 bs)))"
    by (simp add: nat_mult_distrib)
  then show ?thesis
    by (simp add: cob_decoded_def cob_read_size_def length_group_faces)
qed

lemma cob_example_run:
  "loadcob_run cob_example = Inr (cob_example_mesh, [0, 0, 0, 0, 0, 0, 0, 0, 0, 0, 0x80, 0x3F])"
  by (simp add: loadcob_run_def cob_example_def cob_example_mesh_def struct_eval COB_FILE_ID_def
      f_1_def)

text \<open>
  C4, as the claim states it: after the positions and the indices, \<open>loadcob\<close> reads the
  normals. It does not: on \<open>cob_example\<close> the twelve bytes of the normal are not read
  when \<open>loadcob\<close> returns, and the file cut off before its normals gives the same mesh.
\<close>

theorem loadcob_normals_unread:
  "loadcob_run cob_example = Inr (cob_example_mesh, [0, 0, 0, 0, 0, 0, 0, 0, 0, 0, 0x80, 0x3F])
   \<and> loadcob (take 60 cob_example) = Inr cob_example_mesh"
  by (simp add: loadcob_def loadcob_run_def cob_example_def cob_example_mesh_def struct_eval
      COB_FILE_ID_def f_1_def)

text \<open>
  C4, amended. When \<open>loadcob\<close> returns a mesh, it has read the header of 12 bytes, 12
  bytes for each vertex and 12 bytes for each face (three indices of 4 bytes) and
  nothing more: the rest of the file, the normals, is not read, and every file with the
  same bytes up to there gives the same mesh, which holds positions and faces only.
\<close>

theorem loadcob_leaves_normals:
  "loadcob_run bs = Inr (m, rest) \<Longrightarrow>
     12 + 12 * length (c_verts m) + 12 * length (c_faces m) \<le> length bs
     \<and> rest = drop (12 + 12 * length (c_verts m) + 12 * length (c_faces m)) bs
     \<and> (\<forall>bs'. 12 + 12 * length (c_verts m) + 12 * length (c_faces m) \<le> length bs'
            \<and> take (12 + 12 * length (c_verts m) + 12 * length (c_faces m)) bs'
              = take (12 + 12 * length (c_verts m) + 12 * length (c_faces m)) bs
            \<longrightarrow> loadcob bs' = Inr m)"
proof -
  assume run: "loadcob_run bs = Inr (m, rest)"
  let ?N = "cob_read_size bs"
  from run have len: "?N \<le> length bs" and magic: "unpack_I (take 4 bs) = COB_FILE_ID"
    and m: "m = cob_decoded bs" and rest: "rest = drop ?N bs"
    by (auto simp add: loadcob_run_eq split: if_splits)
  have N: "12 + 12 * length (c_verts m) + 12 * length (c_faces m) = ?N"
    by (simp only: m length_cob_decoded)
  have n12: "12 \<le> ?N" by (simp add: cob_read_size_def)
  have "loadcob bs' = Inr m" if l: "?N \<le> length bs'" and t: "take ?N bs' = take ?N bs" for bs'
  proof -
    have "cob_read_size bs' = ?N"
      using t n12 by (rule cob_read_size_agree)
    moreover have "cob_decoded bs' = cob_decoded bs"
      using t by (rule cob_decoded_agree) simp
    moreover have "take 4 bs' = take 4 bs"
      using take_drop_agree [OF t, of 0 4] n12 by simp
    ultimately show ?thesis
      using l n12 magic by (simp add: loadcob_def loadcob_run_eq m)
  qed
  with len rest show ?thesis
    unfolding N by blast
qed

theorem loadcob_leaves_normals_witness:
  "drop 60 cob_example = [0, 0, 0, 0, 0, 0, 0, 0, 0, 0, 0x80, 0x3F]
   \<and> loadcob (take 60 cob_example @ [0, 0, 0x80, 0x3F, 0, 0, 0, 0, 0, 0, 0, 0])
       = Inr cob_example_mesh"
  using loadcob_leaves_normals [OF cob_example_run]
  by (simp add: cob_example_mesh_def)

section \<open>The vertex welding\<close>

text \<open>
  A vector is similar to itself when its components are finite, and to no vector when
  one of them is not: the difference has a component that is infinite or NaN.
\<close>

lemma float_sub_self: "is_finite a \<Longrightarrow> float_sub a a = Finite 0"
  by (cases a) simp_all

lemma float_sub_not_finite: "\<not> is_finite a \<Longrightarrow> \<not> is_finite (float_sub a b)"
  by (cases a; cases b) simp_all

lemma vec_length_not_finite:
  "\<exists>a \<in> set v. \<not> is_finite a \<Longrightarrow> \<not> py_less (vec_length v) b"
proof -
  assume "\<exists>a \<in> set v. \<not> is_finite a"
  then obtain a where a: "a \<in> set v" "\<not> is_finite a" by blast
  have "a = NaN \<or> a = PInf \<or> a = NInf"
    using a(2) by (cases a) simp_all
  with a(1) have "NaN \<in> set v \<or> PInf \<in> set v \<or> NInf \<in> set v"
    by blast
  then show ?thesis
    by (cases b) (auto simp add: vec_length_def)
qed

lemma vec_similar3_refl:
  "finite_vec [fst v, fst (snd v), snd (snd v)] \<Longrightarrow> vec_similar3 v v"
  by (simp add: vec_similar3_def vec_similar_def finite_vec_def float_sub_self vec_length_def)

lemma vec_similar2_refl: "finite_vec [fst v, snd v] \<Longrightarrow> vec_similar2 v v"
  by (simp add: vec_similar2_def vec_similar_def finite_vec_def float_sub_self vec_length_def)

lemma vec_similar2_not_finite: "\<not> finite_vec [fst v, snd v] \<Longrightarrow> \<not> vec_similar2 v w"
  unfolding vec_similar2_def vec_similar_def
  by (rule vec_length_not_finite) (auto simp add: finite_vec_def float_sub_not_finite)

lemma simmilar_refl: "finite_corner uvl c \<Longrightarrow> simmilar (corner_vert uvl c n) (corner_vert uvl c n)"
  by (simp add: simmilar_def finite_corner_def corner_vert_def corner_uv_def vec_similar3_refl
      vec_similar2_refl)

lemma simmilar_index: "simmilar (v\<lparr>index := n\<rparr>) = simmilar v"
  by (rule ext) (simp add: simmilar_def)

lemma simmilar_corner_vert: "simmilar (corner_vert uvl c n) = simmilar (corner_vert uvl c 0)"
  by (rule ext) (simp add: simmilar_def corner_vert_def)

lemma find_append_Some: "find P xs = Some v \<Longrightarrow> find P (xs @ ys) = Some v"
  by (induction xs) (auto split: if_splits)

lemma find_append_None: "find P xs = None \<Longrightarrow> find P (xs @ ys) = find P ys"
  by (induction xs) (auto split: if_splits)

lemma get_corner_eq:
  "get_corner self uvl c =
     (case find (simmilar (corner_vert uvl c 0)) (cls_by_blender_index self (vert_index c)) of
        Some other \<Rightarrow> (self, other)
      | None \<Rightarrow>
          (\<lparr>cls_verts = cls_verts self @ [corner_vert uvl c (length (cls_verts self))],
            cls_by_blender_index = (cls_by_blender_index self)
              (vert_index c := cls_by_blender_index self (vert_index c)
                 @ [corner_vert uvl c (length (cls_verts self))])\<rparr>,
           corner_vert uvl c (length (cls_verts self))))"
proof -
  have inst: "\<lparr>coords = vert_co c, normal = vert_normal c,
      uv = corner_uv uvl c, index = n\<rparr> = corner_vert uvl c n" for n
    by (simp add: corner_vert_def)
  show ?thesis
    unfolding get_corner_def get_def Let_def inst
      simmilar_corner_vert [of uvl c "length (cls_verts self)"]
    by (rule refl)
qed

lemma get_corner_resolved:
  "finite_corner uvl c \<Longrightarrow> get_corner self uvl c = (self', v) \<Longrightarrow>
     resolved self' uvl c = Some v"
  using simmilar_refl [of uvl c "length (cls_verts self)"]
  by (auto simp add: get_corner_eq resolved_def find_append_None
      simmilar_corner_vert [of uvl c "length (cls_verts self)", symmetric]
      split: option.splits)

lemma get_corner_in:
  "get_corner self uvl c = (self', v) \<Longrightarrow> v \<in> set (cls_by_blender_index self' (vert_index c))"
  by (auto simp add: get_corner_eq find_Some_iff split: option.splits)

lemma get_corner_grows:
  "get_corner self uvl c = (self', v) \<Longrightarrow>
     set (cls_by_blender_index self b) \<subseteq> set (cls_by_blender_index self' b)"
  by (auto simp add: get_corner_eq split: option.splits)

lemma get_corner_keeps:
  "get_corner self uvl c = (self', v) \<Longrightarrow> resolved self uvl d = Some w \<Longrightarrow>
     resolved self' uvl d = Some w"
  by (auto simp add: get_corner_eq resolved_def find_append_Some split: option.splits)

lemma get_face_props:
  "get_face self uvl cs = (self', vs) \<Longrightarrow>
     length vs = length cs
     \<and> (\<forall>k < length cs. vs ! k \<in> set (cls_by_blender_index self' (vert_index (cs ! k)))
           \<and> (finite_corner uvl (cs ! k) \<longrightarrow> resolved self' uvl (cs ! k) = Some (vs ! k)))
     \<and> (\<forall>d w. resolved self uvl d = Some w \<longrightarrow> resolved self' uvl d = Some w)
     \<and> (\<forall>b. set (cls_by_blender_index self b) \<subseteq> set (cls_by_blender_index self' b))"
proof (induction cs arbitrary: self self' vs)
  case Nil
  then show ?case by simp
next
  case (Cons c cs)
  obtain self1 v where g: "get_corner self uvl c = (self1, v)"
    by (cases "get_corner self uvl c")
  obtain self2 ws where r: "get_face self1 uvl cs = (self2, ws)"
    by (cases "get_face self1 uvl cs")
  from Cons.prems g r have eq: "self' = self2" "vs = v # ws"
    by simp_all
  note ih = Cons.IH [OF r]
  have keep1: "resolved self1 uvl d = Some w" if "resolved self uvl d = Some w" for d w
    using get_corner_keeps [OF g that] .
  have keep2: "resolved self2 uvl d = Some w" if "resolved self1 uvl d = Some w" for d w
    using ih that by blast
  have grow1: "set (cls_by_blender_index self b) \<subseteq> set (cls_by_blender_index self1 b)" for b
    using g by (rule get_corner_grows)
  have grow2: "set (cls_by_blender_index self1 b) \<subseteq> set (cls_by_blender_index self2 b)" for b
    using ih by blast
  have here: "resolved self2 uvl c = Some v" if "finite_corner uvl c"
    by (rule keep2) (rule get_corner_resolved [OF that g])
  have mem: "v \<in> set (cls_by_blender_index self2 (vert_index c))"
    using get_corner_in [OF g] grow2 by blast
  have "(v # ws) ! k \<in> set (cls_by_blender_index self2 (vert_index ((c # cs) ! k)))
      \<and> (finite_corner uvl ((c # cs) ! k) \<longrightarrow>
           resolved self2 uvl ((c # cs) ! k) = Some ((v # ws) ! k))"
    if "k < length (c # cs)" for k
    using that here mem ih by (cases k) simp_all
  moreover have "length (v # ws) = length (c # cs)"
    using ih by simp
  moreover have "set (cls_by_blender_index self b) \<subseteq> set (cls_by_blender_index self2 b)" for b
    using grow1 [of b] grow2 [of b] by blast
  ultimately show ?case
    unfolding eq using keep1 keep2 by blast
qed

lemma collect_faces_props:
  "collect_faces self uvl fs = (self', out) \<Longrightarrow>
     length out = length fs
     \<and> (\<forall>i < length fs. length (out ! i) = length (fs ! i)
           \<and> (\<forall>j < length (fs ! i).
                 out ! i ! j \<in> set (cls_by_blender_index self' (vert_index (fs ! i ! j)))
                 \<and> (finite_corner uvl (fs ! i ! j) \<longrightarrow>
                      resolved self' uvl (fs ! i ! j) = Some (out ! i ! j))))
     \<and> (\<forall>d w. resolved self uvl d = Some w \<longrightarrow> resolved self' uvl d = Some w)
     \<and> (\<forall>b. set (cls_by_blender_index self b) \<subseteq> set (cls_by_blender_index self' b))"
proof (induction fs arbitrary: self self' out)
  case Nil
  then show ?case by simp
next
  case (Cons f fs)
  obtain self1 fv where g: "get_face self uvl f = (self1, fv)"
    by (cases "get_face self uvl f")
  obtain self2 r where c: "collect_faces self1 uvl fs = (self2, r)"
    by (cases "collect_faces self1 uvl fs")
  from Cons.prems g c have eq: "self' = self2" "out = fv # r"
    by simp_all
  note ih = Cons.IH [OF c]
  note gf = get_face_props [OF g]
  have keep2: "resolved self2 uvl d = Some w" if "resolved self1 uvl d = Some w" for d w
    using ih that by blast
  have keep1: "resolved self1 uvl d = Some w" if "resolved self uvl d = Some w" for d w
    using gf that by blast
  have grow1: "set (cls_by_blender_index self b) \<subseteq> set (cls_by_blender_index self1 b)" for b
    using gf by blast
  have grow2: "set (cls_by_blender_index self1 b) \<subseteq> set (cls_by_blender_index self2 b)" for b
    using ih by blast
  have first: "fv ! j \<in> set (cls_by_blender_index self2 (vert_index (f ! j)))
      \<and> (finite_corner uvl (f ! j) \<longrightarrow> resolved self2 uvl (f ! j) = Some (fv ! j))"
    if "j < length f" for j
  proof -
    from gf that have m: "fv ! j \<in> set (cls_by_blender_index self1 (vert_index (f ! j)))"
      and r: "finite_corner uvl (f ! j) \<longrightarrow> resolved self1 uvl (f ! j) = Some (fv ! j)"
      by blast+
    from m grow2 have "fv ! j \<in> set (cls_by_blender_index self2 (vert_index (f ! j)))"
      by blast
    with r keep2 show ?thesis by blast
  qed
  have "length ((fv # r) ! i) = length ((f # fs) ! i)
      \<and> (\<forall>j < length ((f # fs) ! i).
            (fv # r) ! i ! j \<in> set (cls_by_blender_index self2 (vert_index ((f # fs) ! i ! j)))
            \<and> (finite_corner uvl ((f # fs) ! i ! j) \<longrightarrow>
                 resolved self2 uvl ((f # fs) ! i ! j) = Some ((fv # r) ! i ! j)))"
    if "i < length (f # fs)" for i
  proof (cases i)
    case 0
    then show ?thesis using gf first by simp
  next
    case (Suc i')
    then show ?thesis using ih that by simp
  qed
  moreover have "length (fv # r) = length (f # fs)"
    using ih by simp
  moreover have "set (cls_by_blender_index self b) \<subseteq> set (cls_by_blender_index self2 b)" for b
    using grow1 [of b] grow2 [of b] by blast
  ultimately show ?case
    unfolding eq using keep1 keep2 by blast
qed

lemma resolved_cong:
  "vert_index c = vert_index d \<Longrightarrow> vert_co c = vert_co d \<Longrightarrow> vert_normal c = vert_normal d \<Longrightarrow>
     corner_uv uvl c = corner_uv uvl d \<Longrightarrow> resolved self uvl c = resolved self uvl d"
  by (simp add: resolved_def corner_vert_def)

lemma finite_corner_cong:
  "vert_co c = vert_co d \<Longrightarrow> vert_normal c = vert_normal d \<Longrightarrow>
     (0 < uvl \<longrightarrow> loop_uv c = loop_uv d) \<Longrightarrow> finite_corner uvl c = finite_corner uvl d"
  by (auto simp add: finite_corner_def)

subsection \<open>Evaluating the welding\<close>

lemma sqrt_less_hundredth: "sqrt x < 1 / 100 \<longleftrightarrow> x < 1 / 10000"
proof -
  have "sqrt (1 / 10000) = 1 / 100"
    by (rule real_sqrt_unique) (simp_all add: power2_eq_square)
  then have "sqrt x < 1 / 100 \<longleftrightarrow> sqrt x < sqrt (1 / 10000)"
    by (simp only:)
  also have "\<dots> \<longleftrightarrow> x < 1 / 10000"
    by (rule real_sqrt_less_iff)
  finally show ?thesis .
qed

lemmas weld_eval = get_corner_def get_def Let_def simmilar_def vec_similar3_def vec_similar2_def
  vec_similar_def vec_length_def f32_value_examples sqrt_less_hundredth corner_uv_def
  Verts_init_def flat_corner_def uv_corner_def power2_eq_square

lemma two_triangles: "bm_faces (fan_triangulate quad) =
  [[flat_corner 0 0 0, flat_corner f_1 0 1, flat_corner f_1 f_1 2],
   [flat_corner 0 0 0, flat_corner f_1 f_1 2, flat_corner 0 f_1 3]]"
  by (simp add: fan_triangulate_def quad_def)

lemma finite_flat_corner:
  "finite_vec [x, y] \<Longrightarrow> finite_corner 0 (flat_corner x y i)"
  by (simp add: finite_corner_def flat_corner_def finite_vec_def f32_value_examples)

text \<open>
  C7, as the claim states it: two corners with the same source index and identical
  position, normal and UV get the same vertex index. The two triangles of \<open>inf_faces\<close>
  share the corner \<open>inf_corner\<close>, whose U is infinite: the difference of its UV and
  the UV of the vertex made for it is NaN, \<open>vec_similar\<close> is false, and the corner
  gets the index 0 in the first triangle and 3 in the second.
\<close>

theorem dedup_infinite_uv_split:
  "inf_faces ! 0 ! 0 = inf_faces ! 1 ! 0
   \<and> map (map index) (snd (collect_faces Verts_init 1 inf_faces)) = [[0, 1, 2], [3, 2, 4]]"
  by (simp add: inf_faces_def inf_corner_def weld_eval)

text \<open>
  C7, amended. Two corners of one export that have the same source index and the same
  position, normal and UV (the UV counts when the mesh has a UV layer) get the same
  vertex index when the components of the position, of the normal and of the UV are
  finite numbers: here \<open>out\<close> is the list of faces that the loop of lines 360 to 366
  builds from the faces \<open>fs\<close> of the mesh, in any state of the class \<open>Verts\<close>.
\<close>

theorem dedup_identical_corners:
  assumes "collect_faces self uvl fs = (self', out)"
    and "i < length fs" and "j < length (fs ! i)"
    and "i' < length fs" and "j' < length (fs ! i')"
    and "vert_index (fs ! i ! j) = vert_index (fs ! i' ! j')"
    and "vert_co (fs ! i ! j) = vert_co (fs ! i' ! j')"
    and "vert_normal (fs ! i ! j) = vert_normal (fs ! i' ! j')"
    and "0 < uvl \<longrightarrow> loop_uv (fs ! i ! j) = loop_uv (fs ! i' ! j')"
    and "finite_corner uvl (fs ! i ! j)"
  shows "index (out ! i ! j) = index (out ! i' ! j')"
proof -
  note p = collect_faces_props [OF assms(1)]
  have f: "finite_corner uvl (fs ! i' ! j')"
    using assms(10) finite_corner_cong [OF assms(7,8,9)] by simp
  have a: "resolved self' uvl (fs ! i ! j) = Some (out ! i ! j)"
    using p assms(2,3,10) by blast
  have b: "resolved self' uvl (fs ! i' ! j') = Some (out ! i' ! j')"
    using p assms(4,5) f by blast
  have "corner_uv uvl (fs ! i ! j) = corner_uv uvl (fs ! i' ! j')"
    using assms(9) by (simp add: corner_uv_def)
  then have "resolved self' uvl (fs ! i ! j) = resolved self' uvl (fs ! i' ! j')"
    using assms(6,7,8) by (intro resolved_cong)
  with a b show ?thesis by simp
qed

text \<open>
  An instance: the two triangles of a quad share two corners, and the four corners
  get four indices.
\<close>

theorem dedup_identical_corners_witness:
  "index (snd (collect_faces Verts_init 0 (bm_faces (fan_triangulate quad))) ! 0 ! 2)
     = index (snd (collect_faces Verts_init 0 (bm_faces (fan_triangulate quad))) ! 1 ! 1)
   \<and> map (map index) (snd (collect_faces Verts_init 0 (bm_faces (fan_triangulate quad))))
     = [[0, 1, 2], [0, 2, 3]]"
proof
  let ?r = "collect_faces Verts_init 0 (bm_faces (fan_triangulate quad))"
  have c: "?r = (fst ?r, snd ?r)" by simp
  show "index (snd ?r ! 0 ! 2) = index (snd ?r ! 1 ! 1)"
    by (rule dedup_identical_corners [OF c])
      (simp_all add: two_triangles finite_flat_corner finite_vec_def f32_value_examples)
  show "map (map index) (snd ?r) = [[0, 1, 2], [0, 2, 3]]"
    by (simp add: two_triangles weld_eval)
qed

subsection \<open>The invariant\<close>

lemma wf_Verts_init: "wf_Verts Verts_init"
  by (simp add: wf_Verts_def Verts_init_def)

lemma wf_get_corner:
  assumes "wf_Verts self" and "get_corner self uvl c = (self', v)"
  shows "wf_Verts self'"
proof (cases "resolved self uvl c")
  case (Some w)
  with assms show ?thesis
    by (simp add: get_corner_eq resolved_def)
next
  case None
  let ?n = "length (cls_verts self)"
  let ?v = "corner_vert uvl c ?n"
  from None assms(2) have s: "self' = \<lparr>cls_verts = cls_verts self @ [?v],
      cls_by_blender_index = (cls_by_blender_index self)
        (vert_index c := cls_by_blender_index self (vert_index c) @ [?v])\<rparr>"
    by (auto simp add: get_corner_eq resolved_def)
  have old: "index w < ?n" if "w \<in> set (cls_by_blender_index self b)" for w b
    using assms(1) that by (auto simp add: wf_Verts_def)
  have new: "index ?v = ?n"
    by (simp add: corner_vert_def)
  have mem: "w \<in> set (cls_by_blender_index self' b) \<longleftrightarrow>
      w \<in> set (cls_by_blender_index self b) \<or> (b = vert_index c \<and> w = ?v)" for w b
    by (auto simp add: s)
  have sep: "b = b'" if "w \<in> set (cls_by_blender_index self b)"
    "w' \<in> set (cls_by_blender_index self b')" "index w = index w'" for w w' b b'
    using assms(1) that unfolding wf_Verts_def by blast
  have len: "length (cls_verts self') = Suc ?n"
    by (simp add: s)
  show ?thesis
    unfolding wf_Verts_def
  proof (intro conjI allI ballI impI)
    fix b w assume "w \<in> set (cls_by_blender_index self' b)"
    then have "w \<in> set (cls_by_blender_index self b) \<or> w = ?v"
      unfolding mem by blast
    then show "index w < length (cls_verts self')"
      using old [of w b] new len by auto
  next
    fix b b' w w'
    assume "w \<in> set (cls_by_blender_index self' b)" "w' \<in> set (cls_by_blender_index self' b')"
      and e: "index w = index w'"
    then have "(w \<in> set (cls_by_blender_index self b) \<or> (b = vert_index c \<and> w = ?v))
        \<and> (w' \<in> set (cls_by_blender_index self b') \<or> (b' = vert_index c \<and> w' = ?v))"
      unfolding mem by blast
    then show "b = b'"
      using old [of w b] old [of w' b'] new sep [of w b w' b'] e by auto
  qed
qed

lemma wf_get_face:
  "wf_Verts self \<Longrightarrow> get_face self uvl cs = (self', vs) \<Longrightarrow> wf_Verts self'"
proof (induction cs arbitrary: self self' vs)
  case Nil
  then show ?case by simp
next
  case (Cons c cs)
  obtain self1 v where g: "get_corner self uvl c = (self1, v)"
    by (cases "get_corner self uvl c")
  obtain self2 ws where r: "get_face self1 uvl cs = (self2, ws)"
    by (cases "get_face self1 uvl cs")
  from Cons.prems(2) g r have "self' = self2"
    by simp
  with Cons.IH [OF wf_get_corner [OF Cons.prems(1) g] r] show ?case by simp
qed

lemma wf_collect_faces:
  "wf_Verts self \<Longrightarrow> collect_faces self uvl fs = (self', out) \<Longrightarrow> wf_Verts self'"
proof (induction fs arbitrary: self self' out)
  case Nil
  then show ?case by simp
next
  case (Cons f fs)
  obtain self1 fv where g: "get_face self uvl f = (self1, fv)"
    by (cases "get_face self uvl f")
  obtain self2 r where c: "collect_faces self1 uvl fs = (self2, r)"
    by (cases "collect_faces self1 uvl fs")
  from Cons.prems(2) g c have "self' = self2" by simp
  with Cons.IH [OF wf_get_face [OF Cons.prems(1) g] c] show ?case by simp
qed

text \<open>
  C8. Two corners of one export with different source indices never get the same
  vertex index, whatever their position, normal and UV. The state of the class at the
  start of the export is any state that satisfies \<open>wf_Verts\<close>: the state of a fresh
  module does (\<open>wf_Verts_init\<close>) and the welding keeps it (\<open>wf_collect_faces\<close>).
\<close>

theorem dedup_separates_source_indices:
  assumes "wf_Verts self" and "collect_faces self uvl fs = (self', out)"
    and "i < length fs" and "j < length (fs ! i)"
    and "i' < length fs" and "j' < length (fs ! i')"
    and "vert_index (fs ! i ! j) \<noteq> vert_index (fs ! i' ! j')"
  shows "index (out ! i ! j) \<noteq> index (out ! i' ! j')"
proof -
  note p = collect_faces_props [OF assms(2)]
  have a: "out ! i ! j \<in> set (cls_by_blender_index self' (vert_index (fs ! i ! j)))"
    using p assms(3,4) by blast
  have b: "out ! i' ! j' \<in> set (cls_by_blender_index self' (vert_index (fs ! i' ! j')))"
    using p assms(5,6) by blast
  have "wf_Verts self'"
    using assms(1,2) by (rule wf_collect_faces)
  with a b assms(7) show ?thesis
    unfolding wf_Verts_def by blast
qed

text \<open>
  An instance: two corners at the same place with the same normal, under the source
  indices 0 and 1.
\<close>

theorem dedup_separates_source_indices_witness:
  "index (snd (collect_faces Verts_init 0
        [[flat_corner 0 0 0, flat_corner 0 0 1, flat_corner f_1 0 2]]) ! 0 ! 0)
     \<noteq> index (snd (collect_faces Verts_init 0
        [[flat_corner 0 0 0, flat_corner 0 0 1, flat_corner f_1 0 2]]) ! 0 ! 1)
   \<and> map (map index) (snd (collect_faces Verts_init 0
        [[flat_corner 0 0 0, flat_corner 0 0 1, flat_corner f_1 0 2]])) = [[0, 1, 2]]"
proof
  let ?r = "collect_faces Verts_init 0 [[flat_corner 0 0 0, flat_corner 0 0 1, flat_corner f_1 0 2]]"
  have c: "?r = (fst ?r, snd ?r)" by simp
  show "index (snd ?r ! 0 ! 0) \<noteq> index (snd ?r ! 0 ! 1)"
    by (rule dedup_separates_source_indices [OF wf_Verts_init c])
      (simp_all add: flat_corner_def)
  show "map (map index) (snd ?r) = [[0, 1, 2]]"
    by (simp add: weld_eval)
qed

section \<open>Writing\<close>

subsection \<open>\<open>writestruct\<close> and the loops\<close>

lemma writestruct_failed [simp]: "writestruct p (bs, Some e) = (bs, Some e)"
  by (simp add: writestruct_def)

lemma writestruct_Inr [simp]: "writestruct (Inr p) (bs, None) = (bs @ p, None)"
  by (simp add: writestruct_def)

lemma writestruct_Inl [simp]: "writestruct (Inl e) (bs, None) = (bs, Some e)"
  by (simp add: writestruct_def)

lemma py_assert_simps [simp]:
  "py_assert ok e (bs, Some e') = (bs, Some e')"
  "py_assert True e (bs, None) = (bs, None)"
  "py_assert False e (bs, None) = (bs, Some e)"
  by (simp_all add: py_assert_def)

lemma fold_failed:
  "(\<And>x. f x (bs, Some e) = (bs, Some e)) \<Longrightarrow> fold f xs (bs, Some e) = (bs, Some e)"
  by (induction xs) simp_all

lemma fold_written:
  "(\<And>x bs. x \<in> set xs \<Longrightarrow> f x (bs, None) = (bs @ g x, None)) \<Longrightarrow>
     fold f xs (bs, None) = (bs @ concat (map g xs), None)"
  by (induction xs arbitrary: bs) simp_all

lemma fold_stops:
  assumes "\<And>x bs. x \<in> set pre \<Longrightarrow> f x (bs, None) = (bs @ g x, None)"
    and "\<And>bs. f bad (bs, None) = (bs @ h, Some e)"
    and "\<And>x bs. f x (bs, Some e) = (bs, Some e)"
  shows "fold f (pre @ bad # post) (bs, None) = (bs @ concat (map g pre) @ h, Some e)"
  using assms by (simp add: fold_written fold_failed)

subsection \<open>The record of a vertex\<close>

lemma pack_HH_zero: "pack_HH (0, 0) = Inr [0, 0, 0, 0]"
  by (simp add: pack_HH_def pack_H_def le2_def)

lemma pack_HH_export_uv:
  assumes "u \<noteq> NaN" and "v \<noteq> NaN"
  shows "and_then (export_uv (u, v)) pack_HH
     = Inr (le2 (returned (quantize_u16 u)) @ le2 (returned (quantize_flipped_u16 v)))"
proof -
  from quantize_u16_range [OF assms(1)] obtain a
    where a: "quantize_u16 u = Inr a" "0 \<le> a" "a \<le> 65535" by blast
  from quantize_flipped_u16_range [OF assms(2)] obtain b
    where b: "quantize_flipped_u16 v = Inr b" "0 \<le> b" "b \<le> 65535" by blast
  show ?thesis
    using a b
    by (simp add: and_then_def export_uv_def pair_results_def pack_HH_def pack_H_def
        returned_def)
qed

lemma pack_hhh_encodeNormal:
  assumes "x \<noteq> NaN" and "y \<noteq> NaN" and "z \<noteq> NaN"
  shows "and_then (encodeNormal (x, y, z)) pack_hhh
     = Inr (le2 (returned (quantize_i16 x)) @ le2 (returned (quantize_i16 y))
            @ le2 (returned (quantize_i16 z)))"
proof -
  from quantize_i16_range [OF assms(1)] obtain a
    where a: "quantize_i16 x = Inr a" "- 32767 \<le> a" "a \<le> 32767" by blast
  from quantize_i16_range [OF assms(2)] obtain b
    where b: "quantize_i16 y = Inr b" "- 32767 \<le> b" "b \<le> 32767" by blast
  from quantize_i16_range [OF assms(3)] obtain c
    where c: "quantize_i16 z = Inr c" "- 32767 \<le> c" "c \<le> 32767" by blast
  show ?thesis
    using a b c
    by (simp add: and_then_def encodeNormal_def pair_results_def pack_hhh_def pack_h_def
        returned_def)
qed

lemma export_uv_NaN:
  "u = NaN \<or> v = NaN \<Longrightarrow> and_then (export_uv (u, v)) pack_HH = Inl ValueError"
proof (cases "u = NaN")
  case True
  then show ?thesis
    by (simp add: and_then_def export_uv_def pair_results_def quantize_NaN)
next
  case False
  assume "u = NaN \<or> v = NaN"
  with False have v: "v = NaN" by simp
  from quantize_u16_range [OF False] obtain a where "quantize_u16 u = Inr a" by blast
  then show ?thesis
    by (simp add: and_then_def export_uv_def pair_results_def quantize_NaN v)
qed

lemma quantize_i16_cases: "(\<exists>n. quantize_i16 x = Inr n) \<or> quantize_i16 x = Inl ValueError"
  using quantize_i16_range [of x] by (cases "x = NaN") (auto simp add: quantize_NaN)

lemma encodeNormal_NaN:
  assumes "x = NaN \<or> y = NaN \<or> z = NaN"
  shows "and_then (encodeNormal (x, y, z)) pack_hhh = Inl ValueError"
proof -
  have n: "quantize_i16 x = Inl ValueError \<or> quantize_i16 y = Inl ValueError
      \<or> quantize_i16 z = Inl ValueError"
    using assms by (auto simp add: quantize_NaN)
  show ?thesis
    using n quantize_i16_cases [of x] quantize_i16_cases [of y] quantize_i16_cases [of z]
    by (auto simp add: and_then_def encodeNormal_def pair_results_def)
qed

lemma write_vert_written:
  assumes "quantizable vert"
  shows "write_vert pack_f vert (bs, None) = (bs @ vert_bytes pack_f vert, None)"
proof -
  have n: "and_then (encodeNormal (values3 (normal vert))) pack_hhh
      = Inr (le2 (returned (quantize_i16 (f32_value (fst (normal vert)))))
             @ le2 (returned (quantize_i16 (f32_value (fst (snd (normal vert))))))
             @ le2 (returned (quantize_i16 (f32_value (snd (snd (normal vert)))))))"
    using assms by (simp add: quantizable_def values3_def pack_hhh_encodeNormal)
  show ?thesis
  proof (cases "uv vert")
    case None
    then show ?thesis
      by (simp add: write_vert_def vert_bytes_def pack_fff_def n pack_HH_zero)
  next
    case (Some p)
    with assms have "f32_value (fst p) \<noteq> NaN" "f32_value (snd p) \<noteq> NaN"
      by (simp_all add: quantizable_def)
    then have "and_then (export_uv (values2 p)) pack_HH
        = Inr (le2 (returned (quantize_u16 (f32_value (fst p))))
               @ le2 (returned (quantize_flipped_u16 (f32_value (snd p)))))"
      unfolding values2_def by (rule pack_HH_export_uv)
    with Some show ?thesis
      by (simp add: write_vert_def vert_bytes_def pack_fff_def n)
  qed
qed

lemma write_vert_failed: "write_vert pack_f vert (bs, Some e) = (bs, Some e)"
  by (simp add: write_vert_def)

text \<open>
  A vertex that cannot be quantised ends the export with the \<open>ValueError\<close> of \<open>int\<close>,
  after its position, or its position and its UV, are written.
\<close>

lemma write_vert_value_error:
  assumes "\<not> quantizable vert"
  shows "\<exists>h. \<forall>bs. write_vert pack_f vert (bs, None) = (bs @ h, Some ValueError)"
proof (cases "case uv vert of None \<Rightarrow> True
    | Some p \<Rightarrow> f32_value (fst p) \<noteq> NaN \<and> f32_value (snd p) \<noteq> NaN")
  case False
  then obtain p where p: "uv vert = Some p" "f32_value (fst p) = NaN \<or> f32_value (snd p) = NaN"
    by (auto split: option.splits)
  have "write_vert pack_f vert (bs, None)
      = (bs @ (pack_f (fst (coords vert)) @ pack_f (fst (snd (coords vert)))
               @ pack_f (snd (snd (coords vert)))), Some ValueError)" for bs
    by (simp add: write_vert_def pack_fff_def p(1) values2_def export_uv_NaN [OF p(2)])
  then show ?thesis by blast
next
  case True
  with assms have n: "f32_value (fst (normal vert)) = NaN
      \<or> f32_value (fst (snd (normal vert))) = NaN \<or> f32_value (snd (snd (normal vert))) = NaN"
    by (auto simp add: quantizable_def)
  have "\<exists>u. (case uv vert of
        Some p \<Rightarrow> and_then (export_uv (values2 p)) pack_HH
      | None \<Rightarrow> pack_HH (0, 0)) = Inr u"
    using True by (auto simp add: values2_def pack_HH_export_uv pack_HH_zero split: option.splits)
  then obtain u where u: "(case uv vert of
        Some p \<Rightarrow> and_then (export_uv (values2 p)) pack_HH
      | None \<Rightarrow> pack_HH (0, 0)) = Inr u" ..
  have "write_vert pack_f vert (bs, None)
      = (bs @ ((pack_f (fst (coords vert)) @ pack_f (fst (snd (coords vert)))
               @ pack_f (snd (snd (coords vert)))) @ u), Some ValueError)" for bs
    by (simp add: write_vert_def pack_fff_def u values3_def encodeNormal_NaN [OF n])
  then show ?thesis by blast
qed

lemma write_verts_written:
  "\<forall>v \<in> set vs. quantizable v \<Longrightarrow>
     fold (write_vert pack_f) vs (bs, None) = (bs @ concat (map (vert_bytes pack_f) vs), None)"
  by (rule fold_written) (simp add: write_vert_written)

lemma write_verts_value_error:
  assumes "\<exists>v \<in> set vs. \<not> quantizable v"
  shows "\<exists>h. \<forall>bs. fold (write_vert pack_f) vs (bs, None) = (bs @ h, Some ValueError)"
proof -
  from assms obtain p v q where s: "vs = p @ v # q" "\<not> quantizable v"
    "\<forall>x \<in> set p. \<not> \<not> quantizable x"
    using split_list_first_prop [of vs "\<lambda>x. \<not> quantizable x"] by blast
  from write_vert_value_error [OF s(2), of pack_f] obtain h
    where h: "\<And>bs. write_vert pack_f v (bs, None) = (bs @ h, Some ValueError)" by blast
  have "fold (write_vert pack_f) (p @ v # q) (bs, None)
      = (bs @ concat (map (vert_bytes pack_f) p) @ h, Some ValueError)" for bs
  proof (rule fold_stops)
    fix x bs assume "x \<in> set p"
    with s(3) show "write_vert pack_f x (bs, None) = (bs @ vert_bytes pack_f x, None)"
      by (simp add: write_vert_written)
  next
    fix bs show "write_vert pack_f v (bs, None) = (bs @ h, Some ValueError)"
      by (rule h)
  next
    fix x bs show "write_vert pack_f x (bs, Some ValueError) = (bs, Some ValueError)"
      by (rule write_vert_failed)
  qed
  then show ?thesis
    unfolding s(1) by blast
qed

lemma quantizable_flat_vert: "quantizable (flat_vert x y i)"
  by (simp add: quantizable_def flat_vert_def f32_value_examples)

lemma quantizable_examples:
  "\<forall>v \<in> set mesh_A_verts. quantizable v"
  "\<forall>v \<in> set (mesh_B_verts n). quantizable v"
  "\<forall>v \<in> set line_verts. quantizable v"
  by (simp_all add: quantizable_def mesh_A_verts_def mesh_B_verts_def line_verts_def
      line_vert_def flat_vert_def f32_value_examples)

subsection \<open>The indices of a BOB file\<close>

lemma write_index_written:
  "index vert \<le> 65535 \<Longrightarrow>
     writestruct (pack_H (int (index vert))) (bs, None) = (bs @ le2 (int (index vert)), None)"
  by (simp add: pack_H_def)

lemma write_index_range:
  "65535 < index vert \<Longrightarrow>
     writestruct (pack_H (int (index vert))) (bs, None) = (bs, Some PackRange)"
  by (simp add: pack_H_def)

lemma write_indices_written:
  "\<forall>vert \<in> set vs. index vert \<le> 65535 \<Longrightarrow>
     fold (\<lambda>vert. writestruct (pack_H (int (index vert)))) vs (bs, None)
       = (bs @ index_bytes vs, None)"
  unfolding index_bytes_def
  by (rule fold_written) (simp add: write_index_written)

lemma write_indices_stop:
  "\<forall>vert \<in> set p. index vert \<le> 65535 \<Longrightarrow> 65535 < index v \<Longrightarrow>
     fold (\<lambda>vert. writestruct (pack_H (int (index vert)))) (p @ v # q) (bs, None)
       = (bs @ index_bytes p, Some PackRange)"
  using fold_stops [of p "\<lambda>vert. writestruct (pack_H (int (index vert)))"
      "\<lambda>vert. le2 (int (index vert))" v "[]" PackRange q bs]
  by (simp add: index_bytes_def write_index_written write_index_range)

lemma write_face_failed: "write_face face (bs, Some e) = (bs, Some e)"
  by (simp add: write_face_def fold_failed)

lemma write_face_malformed:
  "length face \<noteq> 3 \<Longrightarrow> write_face face (bs, None) = (bs, Some MalformedMesh)"
  by (simp add: write_face_def fold_failed)

lemma write_face_triangle:
  "length face = 3 \<Longrightarrow>
     write_face face out = fold (\<lambda>vert. writestruct (pack_H (int (index vert)))) face out"
  by (cases out, cases "snd out") (simp_all add: write_face_def)

lemma write_faces_triangles:
  "\<forall>face \<in> set fs. length face = 3 \<Longrightarrow>
     fold write_face fs out
       = fold (\<lambda>vert. writestruct (pack_H (int (index vert)))) (concat fs) out"
  by (induction fs arbitrary: out) (simp_all add: write_face_triangle)

lemma index_bytes_concat: "index_bytes (concat fs) = concat (map index_bytes fs)"
  by (induction fs) (simp_all add: index_bytes_def)

lemma write_faces_stop:
  assumes "\<forall>face \<in> set pre. length face = 3 \<and> (\<forall>vert \<in> set face. index vert \<le> 65535)"
    and "length bad \<noteq> 3"
  shows "fold write_face (pre @ bad # post) (bs, None)
     = (bs @ index_bytes (concat pre), Some MalformedMesh)"
proof -
  have "fold write_face (pre @ bad # post) (bs, None)
      = (bs @ concat (map index_bytes pre) @ [], Some MalformedMesh)"
  proof (rule fold_stops)
    fix x bs assume "x \<in> set pre"
    with assms(1) show "write_face x (bs, None) = (bs @ index_bytes x, None)"
      by (simp add: write_face_triangle write_indices_written)
  next
    fix bs show "write_face bad (bs, None) = (bs @ [], Some MalformedMesh)"
      using assms(2) by (simp add: write_face_malformed)
  next
    fix x bs show "write_face x (bs, Some MalformedMesh) = (bs, Some MalformedMesh)"
      by (rule write_face_failed)
  qed
  then show ?thesis by (simp add: index_bytes_concat)
qed

lemma write_faces_failed: "fold write_face fs (bs, Some e) = (bs, Some e)"
  by (rule fold_failed) (rule write_face_failed)

lemma write_face_range_fails:
  assumes "v \<in> set face" and "65535 < index v"
  shows "snd (write_face face out) \<noteq> None"
proof (cases out)
  case (Pair bs r)
  show ?thesis
  proof (cases r)
    case (Some e)
    with Pair show ?thesis by (simp add: write_face_failed)
  next
    case None
    show ?thesis
    proof (cases "length face = 3")
      case False
      with None Pair show ?thesis by (simp add: write_face_malformed)
    next
      case True
      from assms obtain p w q where "face = p @ w # q" "65535 < index w"
        "\<forall>x \<in> set p. \<not> 65535 < index x"
        using split_list_first_prop [of face "\<lambda>x. 65535 < index x"] by blast
      then have "write_face face (bs, None) = (bs @ index_bytes p, Some PackRange)"
        using True write_indices_stop [of p w q bs]
        by (simp add: write_face_triangle not_less)
      with None Pair show ?thesis by simp
    qed
  qed
qed

lemma write_faces_range_fails:
  "\<exists>v \<in> set (concat fs). 65535 < index v \<Longrightarrow> snd (fold write_face fs out) \<noteq> None"
proof (induction fs arbitrary: out)
  case Nil
  then show ?case by simp
next
  case (Cons f fs)
  show ?case
  proof (cases "\<exists>v \<in> set f. 65535 < index v")
    case True
    then obtain v where "v \<in> set f" "65535 < index v" by blast
    then have "snd (write_face f out) \<noteq> None"
      by (rule write_face_range_fails)
    then obtain bs e where "write_face f out = (bs, Some e)"
      by (cases "write_face f out") auto
    then show ?thesis by (simp add: write_faces_failed)
  next
    case False
    with Cons.prems have "\<exists>v \<in> set (concat fs). 65535 < index v" by auto
    then show ?thesis by (simp add: Cons.IH)
  qed
qed

subsection \<open>\<open>save\<close>\<close>

lemma pack_I_nat: "n \<le> 4294967295 \<Longrightarrow> pack_I (int n) = Inr (le4 (int n))"
  by (simp add: pack_I_def)

lemma write_bob_eq:
  assumes "length vs \<le> 4294967295" and "length fs \<le> 4294967295"
    and "\<forall>v \<in> set vs. quantizable v"
  shows "write_bob pack_f vs fs (bs, None)
     = fold write_face fs
         (bs @ le4 (int (length vs)) @ le4 (int (length fs)) @ concat (map (vert_bytes pack_f) vs),
          None)"
proof -
  have "fold (write_vert pack_f) vs (b, None) = (b @ concat (map (vert_bytes pack_f) vs), None)"
    for b
    using assms(3) by (rule write_verts_written)
  then show ?thesis
    using assms(1,2) by (simp add: write_bob_def pack_I_nat)
qed

lemma save_eq:
  assumes "collect_faces self (bm_uv_layers (prepare triangulate_op triangulate mesh))
      (bm_faces (prepare triangulate_op triangulate mesh)) = (self', fs)"
    and "length (cls_verts self') \<le> 4294967295" and "length fs \<le> 4294967295"
    and "\<forall>v \<in> set (cls_verts self'). quantizable v"
  shows "save pack_f triangulate_op self triangulate mesh
     = (self', fold write_face fs
          (bob_header (length (cls_verts self')) (length fs)
             @ concat (map (vert_bytes pack_f) (cls_verts self')), None))"
  using assms
  by (simp add: save_def Let_def pack_I_def BOB_FILE_ID_def write_bob_eq bob_header_def)

lemma save_value_error:
  assumes "collect_faces self (bm_uv_layers (prepare triangulate_op triangulate mesh))
      (bm_faces (prepare triangulate_op triangulate mesh)) = (self', fs)"
    and "length (cls_verts self') \<le> 4294967295" and "length fs \<le> 4294967295"
    and "\<exists>v \<in> set (cls_verts self'). \<not> quantizable v"
  shows "\<exists>h. fold (write_vert pack_f) (cls_verts self') ([], None) = (h, Some ValueError)
     \<and> save pack_f triangulate_op self triangulate mesh
       = (self', bob_header (length (cls_verts self')) (length fs) @ h, Some ValueError)"
proof -
  from write_verts_value_error [OF assms(4), of pack_f] obtain h
    where h: "\<And>bs. fold (write_vert pack_f) (cls_verts self') (bs, None)
      = (bs @ h, Some ValueError)"
    by blast
  have "write_bob pack_f (cls_verts self') fs (bs, None)
     = (bs @ le4 (int (length (cls_verts self'))) @ le4 (int (length fs)) @ h,
        Some ValueError)" for bs
    using assms(2,3)
      h [of "bs @ le4 (int (length (cls_verts self'))) @ le4 (int (length fs))"]
    by (simp add: write_bob_def pack_I_nat write_faces_failed)
  then have "save pack_f triangulate_op self triangulate mesh
     = (self', bob_header (length (cls_verts self')) (length fs) @ h, Some ValueError)"
    using assms(1) by (simp add: save_def Let_def pack_I_def BOB_FILE_ID_def bob_header_def)
  moreover have "fold (write_vert pack_f) (cls_verts self') ([], None) = (h, Some ValueError)"
    using h [of "[]"] by simp
  ultimately show ?thesis by blast
qed

lemma collect_nan_triangle:
  "collect_faces Verts_init (bm_uv_layers (prepare triangulate_op False nan_triangle))
      (bm_faces (prepare triangulate_op False nan_triangle))
   = (\<lparr>cls_verts = [nan_vert, flat_vert f_1 0 1, flat_vert 0 f_1 2],
        cls_by_blender_index = (\<lambda>k. [])
          (0 := [nan_vert], 1 := [flat_vert f_1 0 1], 2 := [flat_vert 0 f_1 2])\<rparr>,
      [[nan_vert, flat_vert f_1 0 1, flat_vert 0 f_1 2]])"
  by (simp add: prepare_def nan_triangle_def nan_vert_def get_corner_def get_def Let_def
      corner_uv_def Verts_init_def flat_corner_def flat_vert_def numeral_2_eq_2)

lemma nan_vert_not_quantizable: "\<not> quantizable nan_vert"
  by (simp add: quantizable_def nan_vert_def f32_value_examples)

lemma save_state:
  "fst (save pack_f triangulate_op self triangulate mesh)
     = fst (collect_faces self (bm_uv_layers (prepare triangulate_op triangulate mesh))
         (bm_faces (prepare triangulate_op triangulate mesh)))"
  by (simp add: save_def Let_def split: prod.splits)

lemma save_range_fails:
  assumes "collect_faces self (bm_uv_layers (prepare triangulate_op triangulate mesh))
      (bm_faces (prepare triangulate_op triangulate mesh)) = (self', fs)"
    and "\<exists>v \<in> set (concat fs). 65535 < index v"
  shows "snd (snd (save pack_f triangulate_op self triangulate mesh)) \<noteq> None"
  using assms
  by (simp add: save_def Let_def write_bob_def write_faces_range_fails)

lemma unpack_H_le2: "0 \<le> n \<Longrightarrow> n \<le> 65535 \<Longrightarrow> unpack_H (le2 n) = n"
proof -
  assume n: "0 \<le> n" "n \<le> 65535"
  have "uint (word_of_int n :: byte) = n mod 256"
    by (simp add: uint_word_of_int take_bit_eq_mod)
  moreover have "uint (word_of_int (n div 256) :: byte) = n div 256"
    using n by (simp add: uint_word_of_int take_bit_eq_mod)
  ultimately show ?thesis
    by (simp add: unpack_H_def le2_def)
qed

lemma collect_faces_index_bound:
  assumes "wf_Verts self" and "collect_faces self uvl fs = (self', out)"
    and "v \<in> set (concat out)"
  shows "index v < length (cls_verts self')"
proof -
  note p = collect_faces_props [OF assms(2)]
  from assms(3) obtain f where "f \<in> set out" "v \<in> set f" by auto
  then obtain i j where i: "i < length out" "f = out ! i" and j: "j < length f" "v = f ! j"
    by (auto simp add: in_set_conv_nth)
  with p have "v \<in> set (cls_by_blender_index self' (vert_index (fs ! i ! j)))"
    by simp
  moreover have "wf_Verts self'"
    using assms(1,2) by (rule wf_collect_faces)
  ultimately show ?thesis
    unfolding wf_Verts_def by blast
qed

text \<open>
  C10. \<open>save\<close> writes every index of a face with the format \<open>H\<close>. In a state of
  the class that satisfies \<open>wf_Verts\<close>, with \<open>fs\<close> the faces that the welding returns
  and \<open>self'\<close> the state after it:
  \<^item> when the faces are triangles, the vertex list has at most 65536 entries and every
    vertex can be quantised, the export finishes, the file ends with the two bytes of
    every index in face order, and these two bytes read back as the index of the
    vertex;
  \<^item> when an index is above 65535 the export does not finish;
  \<^item> and when moreover the faces are triangles (the counts fit the header, every vertex
    can be quantised), it ends with the exception of \<open>struct.pack\<close> at the first such
    index: the file holds the indices before it, each below 65536, and no byte of the
    index that does not fit;
  \<^item> when a vertex cannot be quantised (a component of its UV or of its normal is NaN),
    the export ends with the \<open>ValueError\<close> of \<open>int\<close> in the loop over the vertices:
    after the header the file holds what that loop wrote, and no index.
\<close>

theorem save_index_u16:
  assumes "wf_Verts self"
    and "collect_faces self (bm_uv_layers (prepare triangulate_op triangulate mesh))
      (bm_faces (prepare triangulate_op triangulate mesh)) = (self', fs)"
  shows "((\<forall>face \<in> set fs. length face = 3) \<and> length fs \<le> 4294967295
          \<and> length (cls_verts self') \<le> 65536
          \<and> (\<forall>v \<in> set (cls_verts self'). quantizable v) \<longrightarrow>
            save pack_f triangulate_op self triangulate mesh
              = (self', bob_header (length (cls_verts self')) (length fs)
                   @ concat (map (vert_bytes pack_f) (cls_verts self'))
                   @ concat (map (\<lambda>vert. le2 (int (index vert))) (concat fs)), None)
            \<and> (\<forall>vert \<in> set (concat fs).
                  index vert \<le> 65535 \<and> unpack_H (le2 (int (index vert))) = int (index vert)))
       \<and> ((\<exists>vert \<in> set (concat fs). 65535 < index vert) \<longrightarrow>
            snd (snd (save pack_f triangulate_op self triangulate mesh)) \<noteq> None)
       \<and> ((\<forall>face \<in> set fs. length face = 3) \<and> length fs \<le> 4294967295
          \<and> length (cls_verts self') \<le> 4294967295
          \<and> (\<forall>v \<in> set (cls_verts self'). quantizable v)
          \<and> (\<exists>vert \<in> set (concat fs). 65535 < index vert) \<longrightarrow>
            (\<exists>p v q. concat fs = p @ v # q \<and> (\<forall>vert \<in> set p. index vert \<le> 65535)
               \<and> 65535 < index v
               \<and> save pack_f triangulate_op self triangulate mesh
                 = (self', bob_header (length (cls_verts self')) (length fs)
                      @ concat (map (vert_bytes pack_f) (cls_verts self'))
                      @ concat (map (\<lambda>vert. le2 (int (index vert))) p), Some PackRange)))
       \<and> (length fs \<le> 4294967295 \<and> length (cls_verts self') \<le> 4294967295
          \<and> (\<exists>v \<in> set (cls_verts self'). \<not> quantizable v) \<longrightarrow>
            (\<exists>h. fold (write_vert pack_f) (cls_verts self') ([], None)
                 = (h, Some ValueError)
               \<and> save pack_f triangulate_op self triangulate mesh
                 = (self', bob_header (length (cls_verts self')) (length fs) @ h,
                    Some ValueError)))"
proof (intro conjI impI)
  assume h: "(\<forall>face \<in> set fs. length face = 3) \<and> length fs \<le> 4294967295
      \<and> length (cls_verts self') \<le> 65536
      \<and> (\<forall>v \<in> set (cls_verts self'). quantizable v)"
  have bound: "index vert \<le> 65535" if "vert \<in> set (concat fs)" for vert
    using collect_faces_index_bound [OF assms that] h by simp
  then have "fold write_face fs (b, None) = (b @ index_bytes (concat fs), None)" for b
    using h by (simp add: write_faces_triangles write_indices_written)
  then show "save pack_f triangulate_op self triangulate mesh
      = (self', bob_header (length (cls_verts self')) (length fs)
           @ concat (map (vert_bytes pack_f) (cls_verts self'))
           @ concat (map (\<lambda>vert. le2 (int (index vert))) (concat fs)), None)"
    using h by (simp add: save_eq [OF assms(2)] index_bytes_def)
  show "\<forall>vert \<in> set (concat fs).
      index vert \<le> 65535 \<and> unpack_H (le2 (int (index vert))) = int (index vert)"
    using bound by (simp add: unpack_H_le2)
next
  assume "\<exists>vert \<in> set (concat fs). 65535 < index vert"
  with assms(2) show "snd (snd (save pack_f triangulate_op self triangulate mesh)) \<noteq> None"
    by (rule save_range_fails)
next
  assume h: "(\<forall>face \<in> set fs. length face = 3) \<and> length fs \<le> 4294967295
      \<and> length (cls_verts self') \<le> 4294967295
      \<and> (\<forall>v \<in> set (cls_verts self'). quantizable v)
      \<and> (\<exists>vert \<in> set (concat fs). 65535 < index vert)"
  then obtain p v q where s: "concat fs = p @ v # q" "65535 < index v"
    "\<forall>x \<in> set p. \<not> 65535 < index x"
    using split_list_first_prop [of "concat fs" "\<lambda>x. 65535 < index x"] by blast
  then have p: "\<forall>vert \<in> set p. index vert \<le> 65535"
    by (simp add: not_less)
  have tri: "\<forall>face \<in> set fs. length face = 3"
    using h by blast
  have "fold write_face fs (b, None) = (b @ index_bytes p, Some PackRange)" for b
    unfolding write_faces_triangles [OF tri] s(1)
    by (rule write_indices_stop [OF p s(2)])
  then have "save pack_f triangulate_op self triangulate mesh
      = (self', bob_header (length (cls_verts self')) (length fs)
           @ concat (map (vert_bytes pack_f) (cls_verts self'))
           @ concat (map (\<lambda>vert. le2 (int (index vert))) p), Some PackRange)"
    using h by (simp add: save_eq [OF assms(2)] index_bytes_def)
  with s(1,2) p show "\<exists>p v q. concat fs = p @ v # q \<and> (\<forall>vert \<in> set p. index vert \<le> 65535)
      \<and> 65535 < index v
      \<and> save pack_f triangulate_op self triangulate mesh
        = (self', bob_header (length (cls_verts self')) (length fs)
             @ concat (map (vert_bytes pack_f) (cls_verts self'))
             @ concat (map (\<lambda>vert. le2 (int (index vert))) p), Some PackRange)"
    by blast
next
  assume h: "length fs \<le> 4294967295 \<and> length (cls_verts self') \<le> 4294967295
      \<and> (\<exists>v \<in> set (cls_verts self'). \<not> quantizable v)"
  then show "\<exists>h. fold (write_vert pack_f) (cls_verts self') ([], None) = (h, Some ValueError)
      \<and> save pack_f triangulate_op self triangulate mesh
        = (self', bob_header (length (cls_verts self')) (length fs) @ h, Some ValueError)"
    by (intro save_value_error [OF assms(2)]) blast+
qed

lemma length_line_verts: "length line_verts = 65536"
  by (simp add: line_verts_def)

lemma wf_line_state: "wf_Verts line_state"
  by (auto simp add: wf_Verts_def line_state_def line_vert_def flat_vert_def length_line_verts)

lemma collect_mesh_A:
  "collect_faces Verts_init (bm_uv_layers (prepare triangulate_op False mesh_A))
      (bm_faces (prepare triangulate_op False mesh_A))
   = (\<lparr>cls_verts = mesh_A_verts,
        cls_by_blender_index = (\<lambda>k. [])
          (0 := [mesh_A_verts ! 0], 1 := [mesh_A_verts ! 1], 2 := [mesh_A_verts ! 2])\<rparr>,
      [mesh_A_verts])"
  by (simp add: prepare_def mesh_A_def mesh_A_verts_def weld_eval numeral_2_eq_2)

lemma collect_far_triangle:
  "collect_faces line_state (bm_uv_layers (prepare triangulate_op False far_triangle))
      (bm_faces (prepare triangulate_op False far_triangle))
   = (\<lparr>cls_verts = line_verts @
         [flat_vert 0 f_1 65536,
          flat_vert f_1 f_1 65537,
          flat_vert 0 f_2 65538],
        cls_by_blender_index = (cls_by_blender_index line_state)
          (65536 := [flat_vert 0 f_1 65536],
           65537 := [flat_vert f_1 f_1 65537],
           65538 := [flat_vert 0 f_2 65538])\<rparr>,
      [[flat_vert 0 f_1 65536,
        flat_vert f_1 f_1 65537,
        flat_vert 0 f_2 65538]])"
  by (simp add: prepare_def far_triangle_def get_corner_def get_def Let_def corner_uv_def
      flat_corner_def flat_vert_def line_state_def length_line_verts)

text \<open>
  Three instances: the triangle \<open>mesh_A\<close> in the state of a fresh module; the triangle
  \<open>far_triangle\<close> in \<open>line_state\<close>, where its vertices get the indices 65536 to 65538;
  and the triangle \<open>nan_triangle\<close>, whose first vertex has a NaN in its normal.
\<close>

theorem save_index_u16_witness:
  "(\<forall>pack_f triangulate_op.
      snd (save pack_f triangulate_op Verts_init False mesh_A)
        = (bob_header 3 1 @ concat (map (vert_bytes pack_f) mesh_A_verts)
           @ [0, 0, 1, 0, 2, 0], None))
   \<and> (\<forall>pack_f triangulate_op.
      snd (save pack_f triangulate_op line_state False far_triangle)
        = (bob_header 65539 1
           @ concat (map (vert_bytes pack_f)
               (line_verts @
                [flat_vert 0 f_1 65536,
                 flat_vert f_1 f_1 65537,
                 flat_vert 0 f_2 65538])),
           Some PackRange))
   \<and> (\<forall>pack_f triangulate_op.
      snd (snd (save pack_f triangulate_op Verts_init False nan_triangle)) = Some ValueError)"
proof (intro conjI allI)
  fix pack_f :: "f32 \<Rightarrow> byte list" and triangulate_op :: "mesh \<Rightarrow> mesh"
  have l: "length mesh_A_verts = 3"
    by (simp add: mesh_A_verts_def)
  have i: "concat (map (\<lambda>vert. le2 (int (index vert))) mesh_A_verts) = [0, 0, 1, 0, 2, 0]"
    by (simp add: mesh_A_verts_def le2_def)
  show "snd (save pack_f triangulate_op Verts_init False mesh_A)
      = (bob_header 3 1 @ concat (map (vert_bytes pack_f) mesh_A_verts)
         @ [0, 0, 1, 0, 2, 0], None)"
    using save_index_u16 [OF wf_Verts_init collect_mesh_A, of pack_f triangulate_op]
    by (simp add: l i quantizable_examples)
next
  fix pack_f :: "f32 \<Rightarrow> byte list" and triangulate_op :: "mesh \<Rightarrow> mesh"
  let ?v0 = "flat_vert 0 f_1 65536"
  let ?v1 = "flat_vert f_1 f_1 65537"
  let ?v2 = "flat_vert 0 f_2 65538"
  let ?st = "\<lparr>cls_verts = line_verts @ [?v0, ?v1, ?v2],
      cls_by_blender_index = (cls_by_blender_index line_state)
        (65536 := [?v0], 65537 := [?v1], 65538 := [?v2])\<rparr>"
  note t = save_index_u16 [OF wf_line_state collect_far_triangle, of pack_f triangulate_op,
      THEN conjunct2, THEN conjunct2, THEN conjunct1, THEN mp]
  have "\<exists>p v q. concat [[?v0, ?v1, ?v2]] = p @ v # q \<and> (\<forall>vert \<in> set p. index vert \<le> 65535)
      \<and> 65535 < index v
      \<and> save pack_f triangulate_op line_state False far_triangle
        = (?st, bob_header (length (cls_verts ?st)) (length [[?v0, ?v1, ?v2]])
             @ concat (map (vert_bytes pack_f) (cls_verts ?st))
             @ concat (map (\<lambda>vert. le2 (int (index vert))) p), Some PackRange)"
    by (rule t) (simp add: length_line_verts quantizable_examples quantizable_flat_vert,
        simp add: flat_vert_def)
  then obtain p v q where pvq: "concat [[?v0, ?v1, ?v2]] = p @ v # q"
      "\<forall>vert \<in> set p. index vert \<le> 65535"
    and s: "save pack_f triangulate_op line_state False far_triangle
        = (?st, bob_header (length (cls_verts ?st)) (length [[?v0, ?v1, ?v2]])
             @ concat (map (vert_bytes pack_f) (cls_verts ?st))
             @ concat (map (\<lambda>vert. le2 (int (index vert))) p), Some PackRange)"
    by blast
  have "p = []"
  proof (cases p)
    case Nil
    then show ?thesis .
  next
    case (Cons a r)
    with pvq(1) have "a = ?v0" by simp
    with Cons pvq(2) show ?thesis by (simp add: flat_vert_def)
  qed
  with s show "snd (save pack_f triangulate_op line_state False far_triangle)
      = (bob_header 65539 1
         @ concat (map (vert_bytes pack_f) (line_verts @ [?v0, ?v1, ?v2])), Some PackRange)"
    by (simp add: length_line_verts)
next
  fix pack_f :: "f32 \<Rightarrow> byte list" and triangulate_op :: "mesh \<Rightarrow> mesh"
  note t = save_index_u16 [OF wf_Verts_init collect_nan_triangle, of pack_f triangulate_op,
      THEN conjunct2, THEN conjunct2, THEN conjunct2, THEN mp]
  have "\<exists>h. fold (write_vert pack_f) [nan_vert, flat_vert f_1 0 1, flat_vert 0 f_1 2] ([], None)
        = (h, Some ValueError)
      \<and> save pack_f triangulate_op Verts_init False nan_triangle
        = (\<lparr>cls_verts = [nan_vert, flat_vert f_1 0 1, flat_vert 0 f_1 2],
             cls_by_blender_index = (\<lambda>k. [])
               (0 := [nan_vert], 1 := [flat_vert f_1 0 1], 2 := [flat_vert 0 f_1 2])\<rparr>,
           bob_header 3 1 @ h, Some ValueError)"
    using t by (simp add: nan_vert_not_quantizable numeral_3_eq_3)
  then show "snd (snd (save pack_f triangulate_op Verts_init False nan_triangle))
      = Some ValueError"
    by auto
qed

subsection \<open>\<open>savecob\<close>\<close>

lemma write_tessface_failed: "write_tessface face (bs, Some e) = (bs, Some e)"
  by (simp add: write_tessface_def fold_failed)

lemma write_tessface_malformed:
  "length (t_vertices face) \<noteq> 3 \<Longrightarrow> write_tessface face (bs, None) = (bs, Some MalformedMesh)"
  by (simp add: write_tessface_def fold_failed)

lemma write_tessface_written:
  assumes "length (t_vertices face) = 3"
    and "\<forall>i \<in> set (t_vertices face). 0 \<le> i \<and> i \<le> 4294967295"
  shows "write_tessface face (bs, None) = (bs @ concat (map le4 (t_vertices face)), None)"
proof -
  have "fold (\<lambda>vertid. writestruct (pack_I vertid)) (t_vertices face) (bs, None)
      = (bs @ concat (map le4 (t_vertices face)), None)"
    using assms(2) by (intro fold_written) (simp add: pack_I_def)
  with assms(1) show ?thesis
    by (simp add: write_tessface_def)
qed

lemma write_vec3_written:
  "fold (\<lambda>co. writestruct (pack_fff pack_f co)) vs (bs, None)
     = (bs @ concat (map (vec3_bytes pack_f) vs), None)"
  by (rule fold_written) (simp add: pack_fff_def vec3_bytes_def)

lemma write_normals_written:
  "fold (\<lambda>face. writestruct (pack_fff pack_f (t_normal face))) ts (bs, None)
     = (bs @ concat (map (\<lambda>face. vec3_bytes pack_f (t_normal face)) ts), None)"
  by (rule fold_written) (simp add: pack_fff_def vec3_bytes_def)

lemma write_normals_failed:
  "fold (\<lambda>face. writestruct (pack_fff pack_f (t_normal face))) ts (bs, Some e) = (bs, Some e)"
  by (rule fold_failed) simp

lemma savecob_eq:
  assumes "length (m_vertices (prepare triangulate_op triangulate mesh)) \<le> 4294967295"
    and "length (m_tessfaces (prepare triangulate_op triangulate mesh)) \<le> 4294967295"
  shows "savecob pack_f triangulate_op triangulate mesh
     = fold (\<lambda>face. writestruct (pack_fff pack_f (t_normal face)))
         (m_tessfaces (prepare triangulate_op triangulate mesh))
         (fold write_tessface (m_tessfaces (prepare triangulate_op triangulate mesh))
            (cob_header (length (m_vertices (prepare triangulate_op triangulate mesh)))
               (length (m_tessfaces (prepare triangulate_op triangulate mesh)))
             @ concat (map (vec3_bytes pack_f)
                 (m_vertices (prepare triangulate_op triangulate mesh))), None))"
  using assms
  by (simp add: savecob_def Let_def pack_I_def COB_FILE_ID_def cob_header_def write_vec3_written)

lemma write_tessfaces_written:
  "\<forall>face \<in> set ts. length (t_vertices face) = 3
        \<and> (\<forall>i \<in> set (t_vertices face). 0 \<le> i \<and> i \<le> 4294967295) \<Longrightarrow>
     fold write_tessface ts (bs, None)
       = (bs @ concat (map (\<lambda>face. concat (map le4 (t_vertices face))) ts), None)"
  by (rule fold_written) (simp add: write_tessface_written)

lemma write_tessfaces_stop:
  assumes "\<forall>face \<in> set pre. length (t_vertices face) = 3
        \<and> (\<forall>i \<in> set (t_vertices face). 0 \<le> i \<and> i \<le> 4294967295)"
    and "length (t_vertices bad) \<noteq> 3"
  shows "fold write_tessface (pre @ bad # post) (bs, None)
     = (bs @ concat (map (\<lambda>face. concat (map le4 (t_vertices face))) pre), Some MalformedMesh)"
proof -
  have "fold write_tessface (pre @ bad # post) (bs, None)
      = (bs @ concat (map (\<lambda>face. concat (map le4 (t_vertices face))) pre) @ [],
         Some MalformedMesh)"
  proof (rule fold_stops)
    fix x bs assume "x \<in> set pre"
    with assms(1) show "write_tessface x (bs, None)
        = (bs @ concat (map le4 (t_vertices x)), None)"
      by (simp add: write_tessface_written)
  next
    fix bs show "write_tessface bad (bs, None) = (bs @ [], Some MalformedMesh)"
      using assms(2) by (simp add: write_tessface_malformed)
  next
    fix x bs show "write_tessface x (bs, Some MalformedMesh) = (bs, Some MalformedMesh)"
      by (rule write_tessface_failed)
  qed
  then show ?thesis by simp
qed

subsection \<open>A face that is not a triangle\<close>

text \<open>
  C2, amended. When the loop over the faces reaches a face that is not a triangle, the
  writer ends with \<open>MalformedMesh\<close>, and what it wrote before stays in the file:
  for \<open>save\<close> the header, the record of every vertex and the indices of the faces
  before that face; for \<open>savecob\<close> the header, the position of every vertex and the
  indices of the faces before that face. (The faces before that face are triangles
  whose indices fit their format, the counts fit the header, and for \<open>save\<close> every
  vertex can be quantised. In \<open>savecob\<close> the faces are the tessellated faces after the
  triangulation step, so that the assertion fails only when the triangulation leaves a
  face that is not a triangle.) When a vertex cannot be quantised (a component of its
  UV or of its normal is NaN), \<open>save\<close> ends in the loop over the vertices, with the
  \<open>ValueError\<close> of \<open>int\<close>: the header and what that loop wrote stay in the file.
\<close>

theorem malformed_mesh_partial_write:
  "(collect_faces self (bm_uv_layers (prepare triangulate_op triangulate mesh))
        (bm_faces (prepare triangulate_op triangulate mesh)) = (self', pre @ bad # post)
      \<and> (\<forall>face \<in> set pre. length face = 3 \<and> (\<forall>vert \<in> set face. index vert \<le> 65535))
      \<and> length bad \<noteq> 3
      \<and> length (cls_verts self') \<le> 4294967295 \<and> length (pre @ bad # post) \<le> 4294967295
      \<and> (\<forall>v \<in> set (cls_verts self'). quantizable v)
    \<longrightarrow> save pack_f triangulate_op self triangulate mesh
        = (self', bob_header (length (cls_verts self')) (length (pre @ bad # post))
             @ concat (map (vert_bytes pack_f) (cls_verts self'))
             @ concat (map (\<lambda>vert. le2 (int (index vert))) (concat pre)),
           Some MalformedMesh))
   \<and> (m_tessfaces (prepare triangulate_op triangulate mesh) = tpre @ tbad # tpost
      \<and> (\<forall>face \<in> set tpre. length (t_vertices face) = 3
            \<and> (\<forall>i \<in> set (t_vertices face). 0 \<le> i \<and> i \<le> 4294967295))
      \<and> length (t_vertices tbad) \<noteq> 3
      \<and> length (m_vertices (prepare triangulate_op triangulate mesh)) \<le> 4294967295
      \<and> length (tpre @ tbad # tpost) \<le> 4294967295
    \<longrightarrow> savecob pack_f triangulate_op triangulate mesh
        = (cob_header (length (m_vertices (prepare triangulate_op triangulate mesh)))
             (length (tpre @ tbad # tpost))
           @ concat (map (vec3_bytes pack_f)
               (m_vertices (prepare triangulate_op triangulate mesh)))
           @ concat (map le4 (concat (map t_vertices tpre))),
           Some MalformedMesh))
   \<and> (collect_faces self (bm_uv_layers (prepare triangulate_op triangulate mesh))
        (bm_faces (prepare triangulate_op triangulate mesh)) = (self', fs)
      \<and> length (cls_verts self') \<le> 4294967295 \<and> length fs \<le> 4294967295
      \<and> (\<exists>v \<in> set (cls_verts self'). \<not> quantizable v)
    \<longrightarrow> (\<exists>h. fold (write_vert pack_f) (cls_verts self') ([], None) = (h, Some ValueError)
          \<and> save pack_f triangulate_op self triangulate mesh
            = (self', bob_header (length (cls_verts self')) (length fs) @ h,
               Some ValueError)))"
proof (intro conjI impI)
  assume h: "collect_faces self (bm_uv_layers (prepare triangulate_op triangulate mesh))
        (bm_faces (prepare triangulate_op triangulate mesh)) = (self', pre @ bad # post)
      \<and> (\<forall>face \<in> set pre. length face = 3 \<and> (\<forall>vert \<in> set face. index vert \<le> 65535))
      \<and> length bad \<noteq> 3
      \<and> length (cls_verts self') \<le> 4294967295 \<and> length (pre @ bad # post) \<le> 4294967295
      \<and> (\<forall>v \<in> set (cls_verts self'). quantizable v)"
  then have c: "collect_faces self (bm_uv_layers (prepare triangulate_op triangulate mesh))
        (bm_faces (prepare triangulate_op triangulate mesh)) = (self', pre @ bad # post)"
    and ok: "\<forall>face \<in> set pre. length face = 3 \<and> (\<forall>vert \<in> set face. index vert \<le> 65535)"
    and bad: "length bad \<noteq> 3"
    and l1: "length (cls_verts self') \<le> 4294967295"
    and l2: "length (pre @ bad # post) \<le> 4294967295"
    and q: "\<forall>v \<in> set (cls_verts self'). quantizable v"
    by blast+
  show "save pack_f triangulate_op self triangulate mesh
        = (self', bob_header (length (cls_verts self')) (length (pre @ bad # post))
             @ concat (map (vert_bytes pack_f) (cls_verts self'))
             @ concat (map (\<lambda>vert. le2 (int (index vert))) (concat pre)),
           Some MalformedMesh)"
    unfolding save_eq [OF c l1 l2 q] write_faces_stop [OF ok bad]
    by (simp add: index_bytes_def)
next
  let ?m = "prepare triangulate_op triangulate mesh"
  assume h: "m_tessfaces ?m = tpre @ tbad # tpost
      \<and> (\<forall>face \<in> set tpre. length (t_vertices face) = 3
            \<and> (\<forall>i \<in> set (t_vertices face). 0 \<le> i \<and> i \<le> 4294967295))
      \<and> length (t_vertices tbad) \<noteq> 3
      \<and> length (m_vertices ?m) \<le> 4294967295
      \<and> length (tpre @ tbad # tpost) \<le> 4294967295"
  then have ts: "m_tessfaces ?m = tpre @ tbad # tpost"
    and ok: "\<forall>face \<in> set tpre. length (t_vertices face) = 3
            \<and> (\<forall>i \<in> set (t_vertices face). 0 \<le> i \<and> i \<le> 4294967295)"
    and bad: "length (t_vertices tbad) \<noteq> 3"
    and l1: "length (m_vertices ?m) \<le> 4294967295"
    and l2: "length (m_tessfaces ?m) \<le> 4294967295"
    by simp_all
  have flat: "concat (map (\<lambda>face. concat (map le4 (t_vertices face))) tpre)
      = concat (map le4 (concat (map t_vertices tpre)))"
    by (induction tpre) simp_all
  show "savecob pack_f triangulate_op triangulate mesh
        = (cob_header (length (m_vertices ?m)) (length (tpre @ tbad # tpost))
           @ concat (map (vec3_bytes pack_f) (m_vertices ?m))
           @ concat (map le4 (concat (map t_vertices tpre))),
           Some MalformedMesh)"
    unfolding savecob_eq [OF l1 l2] ts write_tessfaces_stop [OF ok bad] write_normals_failed flat
    by simp
next
  assume h: "collect_faces self (bm_uv_layers (prepare triangulate_op triangulate mesh))
        (bm_faces (prepare triangulate_op triangulate mesh)) = (self', fs)
      \<and> length (cls_verts self') \<le> 4294967295 \<and> length fs \<le> 4294967295
      \<and> (\<exists>v \<in> set (cls_verts self'). \<not> quantizable v)"
  then show "\<exists>h. fold (write_vert pack_f) (cls_verts self') ([], None) = (h, Some ValueError)
      \<and> save pack_f triangulate_op self triangulate mesh
        = (self', bob_header (length (cls_verts self')) (length fs) @ h, Some ValueError)"
    by (intro save_value_error) blast+
qed

lemma collect_pentagon:
  "collect_faces Verts_init (bm_uv_layers (prepare triangulate_op False pentagon))
      (bm_faces (prepare triangulate_op False pentagon))
   = (\<lparr>cls_verts = [flat_vert 0 0 0, flat_vert f_2 0 1, flat_vert f_3 f_2 2, flat_vert f_1 f_3 3,
          flat_vert f_minus_1 f_2 4],
        cls_by_blender_index = (\<lambda>k. [])
          (0 := [flat_vert 0 0 0], 1 := [flat_vert f_2 0 1], 2 := [flat_vert f_3 f_2 2],
           3 := [flat_vert f_1 f_3 3], 4 := [flat_vert f_minus_1 f_2 4])\<rparr>,
      [[flat_vert 0 0 0, flat_vert f_2 0 1, flat_vert f_3 f_2 2, flat_vert f_1 f_3 3,
        flat_vert f_minus_1 f_2 4]])"
  by (simp add: prepare_def pentagon_def weld_eval flat_vert_def eval_nat_numeral)

lemma bob_header_bytes:
  "bob_header 3 (Suc 0) = [0x37, 0xB2, 0, 0,  1, 0, 0, 0,  3, 0, 0, 0,  1, 0, 0, 0]"
  "bob_header 5 (Suc 0) = [0x37, 0xB2, 0, 0,  1, 0, 0, 0,  5, 0, 0, 0,  1, 0, 0, 0]"
  "bob_header 6 (Suc 0) = [0x37, 0xB2, 0, 0,  1, 0, 0, 0,  6, 0, 0, 0,  1, 0, 0, 0]"
  "bob_header 4 2 = [0x37, 0xB2, 0, 0,  1, 0, 0, 0,  4, 0, 0, 0,  2, 0, 0, 0]"
  by (simp_all add: bob_header_def le4_def BOB_FILE_ID_def)

lemma Suc_numerals:
  "Suc (Suc 0) = 2" "Suc (Suc (Suc 0)) = 3" "Suc (Suc (Suc (Suc 0))) = 4" "Suc (Suc (Suc (Suc (Suc 0)))) = 5"
  "Suc (Suc (Suc (Suc (Suc (Suc 0))))) = 6"
  by simp_all

lemma savecob_pentagon:
  "savecob pack_f triangulate_op False pentagon
     = (cob_header 5 3 @ concat (map (vec3_bytes pack_f) (m_vertices pentagon))
        @ [0, 0, 0, 0,  1, 0, 0, 0,  2, 0, 0, 0,
           0, 0, 0, 0,  2, 0, 0, 0,  3, 0, 0, 0,
           0, 0, 0, 0,  3, 0, 0, 0,  4, 0, 0, 0]
        @ vec3_bytes pack_f (0, 0, f_1) @ vec3_bytes pack_f (0, 0, f_1) @ vec3_bytes pack_f (0, 0, f_1),
        None)"
proof -
  have p: "prepare triangulate_op False pentagon = pentagon"
    by (simp add: prepare_def pentagon_def)
  have l: "length (m_vertices pentagon) = 5" "length (m_tessfaces pentagon) = 3"
    by (simp_all add: pentagon_def)
  have t: "fold write_tessface (m_tessfaces pentagon) (b, None)
      = (b @ concat (map (\<lambda>face. concat (map le4 (t_vertices face))) (m_tessfaces pentagon)),
         None)" for b
    by (rule write_tessfaces_written) (simp add: pentagon_def)
  show ?thesis
    by (simp add: savecob_eq p l t write_normals_written) (simp add: pentagon_def le4_def)
qed

text \<open>
  C2, as the claim states it: a mesh with a face that is not a triangle makes both
  writers fail with \<open>MalformedMesh\<close> and leave no byte. For the pentagon, \<open>save\<close>
  fails with \<open>MalformedMesh\<close> at the face, after the header and the five vertex records
  are in the file (here its first 16 bytes); \<open>savecob\<close> writes the three triangles of
  the tessellation and finishes.
\<close>

theorem pentagon_partial_write:
  "\<forall>pack_f triangulate_op.
     snd (save pack_f triangulate_op Verts_init False pentagon)
       = (bob_header 5 1
          @ concat (map (vert_bytes pack_f)
              [flat_vert 0 0 0, flat_vert f_2 0 1, flat_vert f_3 f_2 2, flat_vert f_1 f_3 3,
               flat_vert f_minus_1 f_2 4]),
          Some MalformedMesh)
     \<and> take 16 (fst (snd (save pack_f triangulate_op Verts_init False pentagon)))
         = [0x37, 0xB2, 0, 0,  1, 0, 0, 0,  5, 0, 0, 0,  1, 0, 0, 0]
     \<and> snd (savecob pack_f triangulate_op False pentagon) = None"
proof (intro allI)
  fix pack_f :: "f32 \<Rightarrow> byte list" and triangulate_op :: "mesh \<Rightarrow> mesh"
  have s: "snd (save pack_f triangulate_op Verts_init False pentagon)
       = (bob_header 5 1
          @ concat (map (vert_bytes pack_f)
              [flat_vert 0 0 0, flat_vert f_2 0 1, flat_vert f_3 f_2 2, flat_vert f_1 f_3 3,
               flat_vert f_minus_1 f_2 4]),
          Some MalformedMesh)"
    by (simp add: save_eq [OF collect_pentagon] write_face_malformed Suc_numerals
        quantizable_flat_vert)
  show "snd (save pack_f triangulate_op Verts_init False pentagon)
       = (bob_header 5 1
          @ concat (map (vert_bytes pack_f)
              [flat_vert 0 0 0, flat_vert f_2 0 1, flat_vert f_3 f_2 2, flat_vert f_1 f_3 3,
               flat_vert f_minus_1 f_2 4]),
          Some MalformedMesh)
     \<and> take 16 (fst (snd (save pack_f triangulate_op Verts_init False pentagon)))
         = [0x37, 0xB2, 0, 0,  1, 0, 0, 0,  5, 0, 0, 0,  1, 0, 0, 0]
     \<and> snd (savecob pack_f triangulate_op False pentagon) = None"
    unfolding s by (simp add: bob_header_bytes savecob_pentagon)
qed

text \<open>
  Three instances: the pentagon for \<open>save\<close>; for \<open>savecob\<close> the quad with a
  triangulation that leaves the mesh as it is; and for the \<open>ValueError\<close> the triangle
  \<open>nan_triangle\<close>, of which \<open>save\<close> leaves the header in the file.
\<close>

theorem malformed_mesh_partial_write_witness:
  "(\<forall>pack_f triangulate_op.
      save pack_f triangulate_op Verts_init False pentagon
        = (fst (save pack_f triangulate_op Verts_init False pentagon),
           bob_header 5 1
           @ concat (map (vert_bytes pack_f)
               [flat_vert 0 0 0, flat_vert f_2 0 1, flat_vert f_3 f_2 2, flat_vert f_1 f_3 3,
                flat_vert f_minus_1 f_2 4]),
           Some MalformedMesh))
   \<and> (\<forall>pack_f.
      savecob pack_f (\<lambda>m. m) False quad
        = (cob_header 4 1 @ concat (map (vec3_bytes pack_f) (m_vertices quad)),
           Some MalformedMesh))
   \<and> (\<forall>pack_f triangulate_op.
      snd (snd (save pack_f triangulate_op Verts_init False nan_triangle)) = Some ValueError
      \<and> take 16 (fst (snd (save pack_f triangulate_op Verts_init False nan_triangle)))
          = [0x37, 0xB2, 0, 0,  1, 0, 0, 0,  3, 0, 0, 0,  1, 0, 0, 0])"
proof (intro conjI allI)
  fix pack_f :: "f32 \<Rightarrow> byte list" and triangulate_op :: "mesh \<Rightarrow> mesh"
  show "save pack_f triangulate_op Verts_init False pentagon
      = (fst (save pack_f triangulate_op Verts_init False pentagon),
         bob_header 5 1
         @ concat (map (vert_bytes pack_f)
             [flat_vert 0 0 0, flat_vert f_2 0 1, flat_vert f_3 f_2 2, flat_vert f_1 f_3 3,
              flat_vert f_minus_1 f_2 4]),
         Some MalformedMesh)"
    using malformed_mesh_partial_write [where self = Verts_init
        and triangulate_op = triangulate_op and triangulate = False and mesh = pentagon
        and pack_f = pack_f and pre = "[]" and post = "[]"
        and bad = "[flat_vert 0 0 0, flat_vert f_2 0 1, flat_vert f_3 f_2 2, flat_vert f_1 f_3 3,
          flat_vert f_minus_1 f_2 4]"
        and self' = "\<lparr>cls_verts = [flat_vert 0 0 0, flat_vert f_2 0 1, flat_vert f_3 f_2 2,
            flat_vert f_1 f_3 3, flat_vert f_minus_1 f_2 4],
          cls_by_blender_index = (\<lambda>k. [])
            (0 := [flat_vert 0 0 0], 1 := [flat_vert f_2 0 1], 2 := [flat_vert f_3 f_2 2],
             3 := [flat_vert f_1 f_3 3], 4 := [flat_vert f_minus_1 f_2 4])\<rparr>" and fs = "[]",
        THEN conjunct1]
    by (simp add: collect_pentagon Suc_numerals quantizable_flat_vert)
next
  fix pack_f :: "f32 \<Rightarrow> byte list"
  have p: "prepare (\<lambda>m. m) False quad = quad"
    by (simp add: prepare_def)
  show "savecob pack_f (\<lambda>m. m) False quad
      = (cob_header 4 1 @ concat (map (vec3_bytes pack_f) (m_vertices quad)),
         Some MalformedMesh)"
    using malformed_mesh_partial_write [where triangulate_op = "\<lambda>m. m"
        and triangulate = False and mesh = quad and pack_f = pack_f and tpre = "[]"
        and tpost = "[]" and tbad = "\<lparr>t_vertices = [0, 1, 2, 3], t_normal = (0, 0, f_1)\<rparr>"
        and fs = "[]", THEN conjunct2, THEN conjunct1]
    by (simp add: p) (simp add: quad_def Suc_numerals)
next
  fix pack_f :: "f32 \<Rightarrow> byte list" and triangulate_op :: "mesh \<Rightarrow> mesh"
  have "\<exists>h. fold (write_vert pack_f) [nan_vert, flat_vert f_1 0 1, flat_vert 0 f_1 2] ([], None)
        = (h, Some ValueError)
      \<and> save pack_f triangulate_op Verts_init False nan_triangle
        = (\<lparr>cls_verts = [nan_vert, flat_vert f_1 0 1, flat_vert 0 f_1 2],
             cls_by_blender_index = (\<lambda>k. [])
               (0 := [nan_vert], 1 := [flat_vert f_1 0 1], 2 := [flat_vert 0 f_1 2])\<rparr>,
           bob_header 3 1 @ h, Some ValueError)"
    using malformed_mesh_partial_write [where self = Verts_init
        and triangulate_op = triangulate_op and triangulate = False and mesh = nan_triangle
        and pack_f = pack_f and fs = "[[nan_vert, flat_vert f_1 0 1, flat_vert 0 f_1 2]]"
        and self' = "\<lparr>cls_verts = [nan_vert, flat_vert f_1 0 1, flat_vert 0 f_1 2],
          cls_by_blender_index = (\<lambda>k. [])
            (0 := [nan_vert], 1 := [flat_vert f_1 0 1], 2 := [flat_vert 0 f_1 2])\<rparr>"
        and pre = "[]" and post = "[]" and bad = "[]" and tpre = "[]" and tpost = "[]"
        and tbad = "\<lparr>t_vertices = [], t_normal = (0, 0, 0)\<rparr>",
        THEN conjunct2, THEN conjunct2]
    by (simp add: collect_nan_triangle nan_vert_not_quantizable Suc_numerals)
  then have "snd (snd (save pack_f triangulate_op Verts_init False nan_triangle))
        = Some ValueError
      \<and> take 16 (fst (snd (save pack_f triangulate_op Verts_init False nan_triangle)))
          = [0x37, 0xB2, 0, 0,  1, 0, 0, 0,  3, 0, 0, 0,  1, 0, 0, 0]"
    by (auto simp add: bob_header_bytes)
  then show "snd (snd (save pack_f triangulate_op Verts_init False nan_triangle))
        = Some ValueError"
    and "take 16 (fst (snd (save pack_f triangulate_op Verts_init False nan_triangle)))
          = [0x37, 0xB2, 0, 0,  1, 0, 0, 0,  3, 0, 0, 0,  1, 0, 0, 0]"
    by simp_all
qed

subsection \<open>A mesh that is not triangulated\<close>

lemma prepare_nontriangle:
  "list_ex (\<lambda>face. length (t_vertices face) \<noteq> 3) (m_tessfaces mesh) \<Longrightarrow>
     prepare triangulate_op triangulate mesh = triangulate_op mesh"
  by (simp add: prepare_def)

lemma collect_faces_lengths:
  assumes "collect_faces self uvl fs = (self', out)"
  shows "map length out = map length fs"
proof (rule nth_equalityI)
  note p = collect_faces_props [OF assms]
  show "length (map length out) = length (map length fs)"
    using p by simp
  fix i assume "i < length (map length out)"
  with p show "map length out ! i = map length fs ! i"
    by simp
qed

lemma save_written:
  assumes "wf_Verts self"
    and "collect_faces self (bm_uv_layers (prepare triangulate_op triangulate mesh))
      (bm_faces (prepare triangulate_op triangulate mesh)) = (self', fs)"
    and "\<forall>face \<in> set fs. length face = 3"
    and "length fs \<le> 4294967295"
    and "length (cls_verts self') \<le> 65536"
    and "\<forall>v \<in> set (cls_verts self'). quantizable v"
  shows "save pack_f triangulate_op self triangulate mesh
     = (self', bob_header (length (cls_verts self')) (length fs)
          @ concat (map (vert_bytes pack_f) (cls_verts self'))
          @ index_bytes (concat fs), None)"
proof -
  have "index vert \<le> 65535" if "vert \<in> set (concat fs)" for vert
    using collect_faces_index_bound [OF assms(1,2) that] assms(5) by simp
  then have "fold write_face fs (b, None) = (b @ index_bytes (concat fs), None)" for b
    using assms(3) by (simp add: write_faces_triangles write_indices_written)
  then show ?thesis
    using assms(4,5,6) by (simp add: save_eq [OF assms(2)])
qed

lemma save_finishes:
  assumes "wf_Verts self"
    and "collect_faces self (bm_uv_layers (prepare triangulate_op triangulate mesh))
      (bm_faces (prepare triangulate_op triangulate mesh)) = (self', fs)"
    and "list_all (\<lambda>face. length face = 3) (bm_faces (prepare triangulate_op triangulate mesh))"
    and "length (bm_faces (prepare triangulate_op triangulate mesh)) \<le> 4294967295"
    and "length (cls_verts self') \<le> 65536"
    and "\<forall>v \<in> set (cls_verts self'). quantizable v"
  shows "snd (snd (save pack_f triangulate_op self triangulate mesh)) = None"
proof -
  have l: "map length fs = map length (bm_faces (prepare triangulate_op triangulate mesh))"
    using assms(2) by (rule collect_faces_lengths)
  then have "length fs = length (bm_faces (prepare triangulate_op triangulate mesh))"
    using map_eq_imp_length_eq by blast
  moreover have "\<forall>face \<in> set fs. length face = 3"
  proof
    fix face assume "face \<in> set fs"
    then have "length face \<in> set (map length fs)" by simp
    then have "length face \<in> length ` set (bm_faces (prepare triangulate_op triangulate mesh))"
      unfolding l by simp
    with assms(3) show "length face = 3"
      by (auto simp add: list_all_iff)
  qed
  ultimately show ?thesis
    using save_written [OF assms(1,2), of pack_f] assms(4,5,6) by simp
qed

lemma savecob_finishes:
  assumes "list_all (\<lambda>face. length (t_vertices face) = 3
        \<and> list_all (\<lambda>i. 0 \<le> i \<and> i \<le> 4294967295) (t_vertices face))
      (m_tessfaces (prepare triangulate_op triangulate mesh))"
    and "length (m_vertices (prepare triangulate_op triangulate mesh)) \<le> 4294967295"
    and "length (m_tessfaces (prepare triangulate_op triangulate mesh)) \<le> 4294967295"
  shows "snd (savecob pack_f triangulate_op triangulate mesh) = None"
proof -
  have "fold write_tessface (m_tessfaces (prepare triangulate_op triangulate mesh)) (b, None)
      = (b @ concat (map (\<lambda>face. concat (map le4 (t_vertices face)))
           (m_tessfaces (prepare triangulate_op triangulate mesh))), None)" for b
    using assms(1) by (intro write_tessfaces_written) (simp add: list_all_iff)
  then show ?thesis
    by (simp add: savecob_eq [OF assms(2,3)] write_normals_written)
qed

text \<open>
  C6, amended. When a tessellated face of the mesh has a number of vertices other than
  3 and no triangulation was requested, the exporters triangulate the mesh themselves
  (line 338 and line 437): they do what they do when the triangulation is requested,
  on the triangulated mesh. When the triangulation leaves only triangles (and the counts
  and the indices fit their formats), \<open>savecob\<close> finishes, and \<open>save\<close> does not end
  with \<open>MalformedMesh\<close>: it finishes when every vertex can be quantised (no component
  of a UV or of a normal is NaN).
\<close>

theorem nontriangle_is_triangulated:
  assumes "list_ex (\<lambda>face. length (t_vertices face) \<noteq> 3) (m_tessfaces mesh)"
  shows "prepare triangulate_op False mesh = triangulate_op mesh
    \<and> save pack_f triangulate_op self False mesh = save pack_f triangulate_op self True mesh
    \<and> savecob pack_f triangulate_op False mesh = savecob pack_f triangulate_op True mesh
    \<and> (wf_Verts self
        \<and> list_all (\<lambda>face. length face = 3) (bm_faces (triangulate_op mesh))
        \<and> length (bm_faces (triangulate_op mesh)) \<le> 4294967295
        \<and> length (cls_verts (fst (collect_faces self (bm_uv_layers (triangulate_op mesh))
              (bm_faces (triangulate_op mesh))))) \<le> 65536
       \<longrightarrow> snd (snd (save pack_f triangulate_op self False mesh)) \<noteq> Some MalformedMesh
          \<and> ((\<forall>v \<in> set (cls_verts (fst (collect_faces self
                  (bm_uv_layers (triangulate_op mesh)) (bm_faces (triangulate_op mesh))))).
                quantizable v)
             \<longrightarrow> snd (snd (save pack_f triangulate_op self False mesh)) = None))
    \<and> (list_all (\<lambda>face. length (t_vertices face) = 3
              \<and> list_all (\<lambda>i. 0 \<le> i \<and> i \<le> 4294967295) (t_vertices face))
            (m_tessfaces (triangulate_op mesh))
        \<and> length (m_vertices (triangulate_op mesh)) \<le> 4294967295
        \<and> length (m_tessfaces (triangulate_op mesh)) \<le> 4294967295
       \<longrightarrow> snd (savecob pack_f triangulate_op False mesh) = None)"
proof -
  have p: "prepare triangulate_op t mesh = triangulate_op mesh" for t
    using assms by (rule prepare_nontriangle)
  have 1: "save pack_f triangulate_op self False mesh = save pack_f triangulate_op self True mesh"
    by (simp add: save_def p)
  have 2: "savecob pack_f triangulate_op False mesh = savecob pack_f triangulate_op True mesh"
    by (simp add: savecob_def p)
  let ?c = "collect_faces self (bm_uv_layers (triangulate_op mesh))
      (bm_faces (triangulate_op mesh))"
  have 3: "snd (snd (save pack_f triangulate_op self False mesh)) \<noteq> Some MalformedMesh
      \<and> ((\<forall>v \<in> set (cls_verts (fst ?c)). quantizable v)
         \<longrightarrow> snd (snd (save pack_f triangulate_op self False mesh)) = None)"
    if h: "wf_Verts self
        \<and> list_all (\<lambda>face. length face = 3) (bm_faces (triangulate_op mesh))
        \<and> length (bm_faces (triangulate_op mesh)) \<le> 4294967295
        \<and> length (cls_verts (fst ?c)) \<le> 65536"
  proof -
    have c: "collect_faces self (bm_uv_layers (prepare triangulate_op False mesh))
        (bm_faces (prepare triangulate_op False mesh)) = (fst ?c, snd ?c)"
      by (simp add: p)
    have fin: "snd (snd (save pack_f triangulate_op self False mesh)) = None"
      if "\<forall>v \<in> set (cls_verts (fst ?c)). quantizable v"
      using h that by (intro save_finishes [OF _ c]) (simp_all add: p)
    have "length (snd ?c) = length (bm_faces (triangulate_op mesh))"
      using collect_faces_lengths [of self "bm_uv_layers (triangulate_op mesh)"
          "bm_faces (triangulate_op mesh)" "fst ?c" "snd ?c"] map_eq_imp_length_eq
      by fastforce
    then have l: "length (cls_verts (fst ?c)) \<le> 4294967295" "length (snd ?c) \<le> 4294967295"
      using h by simp_all
    have "snd (snd (save pack_f triangulate_op self False mesh)) = Some ValueError"
      if "\<exists>v \<in> set (cls_verts (fst ?c)). \<not> quantizable v"
      using save_value_error [OF c l that, of pack_f] by auto
    with fin show ?thesis
      by (cases "\<forall>v \<in> set (cls_verts (fst ?c)). quantizable v") auto
  qed
  have 4: "snd (savecob pack_f triangulate_op False mesh) = None"
    if "list_all (\<lambda>face. length (t_vertices face) = 3
              \<and> list_all (\<lambda>i. 0 \<le> i \<and> i \<le> 4294967295) (t_vertices face))
            (m_tessfaces (triangulate_op mesh))
        \<and> length (m_vertices (triangulate_op mesh)) \<le> 4294967295
        \<and> length (m_tessfaces (triangulate_op mesh)) \<le> 4294967295"
    using that by (intro savecob_finishes) (simp_all add: p)
  from p 1 2 3 4 show ?thesis by blast
qed

lemma prepare_quad: "prepare fan_triangulate False quad = fan_triangulate quad"
  by (simp add: prepare_def quad_def)

lemma tessfaces_fan_quad:
  "m_tessfaces (fan_triangulate quad) =
     [\<lparr>t_vertices = [0, 1, 2], t_normal = (0, 0, f_1)\<rparr>,
      \<lparr>t_vertices = [0, 2, 3], t_normal = (0, 0, f_1)\<rparr>]"
  "m_vertices (fan_triangulate quad) = m_vertices quad"
  "bm_uv_layers (fan_triangulate quad) = 0"
  by (simp_all add: fan_triangulate_def quad_def)

lemma collect_fan_quad:
  "collect_faces Verts_init (bm_uv_layers (prepare fan_triangulate False quad))
      (bm_faces (prepare fan_triangulate False quad))
   = (\<lparr>cls_verts = [flat_vert 0 0 0, flat_vert f_1 0 1, flat_vert f_1 f_1 2, flat_vert 0 f_1 3],
        cls_by_blender_index = (\<lambda>k. [])
          (0 := [flat_vert 0 0 0], 1 := [flat_vert f_1 0 1], 2 := [flat_vert f_1 f_1 2],
           3 := [flat_vert 0 f_1 3])\<rparr>,
      [[flat_vert 0 0 0, flat_vert f_1 0 1, flat_vert f_1 f_1 2],
       [flat_vert 0 0 0, flat_vert f_1 f_1 2, flat_vert 0 f_1 3]])"
  by (simp add: prepare_quad two_triangles tessfaces_fan_quad weld_eval flat_vert_def
      eval_nat_numeral)

text \<open>
  C6, as the claim states it: a quad that reaches the exporters without a request for
  triangulation makes the export fail with \<open>MalformedMesh\<close>. With the fan
  triangulation in the place of the host's, both exporters finish: \<open>save\<close> writes four
  vertices and the two triangles \<open>(0, 1, 2)\<close> and \<open>(0, 2, 3)\<close>.
\<close>

theorem quad_export_finishes:
  "\<forall>pack_f.
     snd (save pack_f fan_triangulate Verts_init False quad)
       = (bob_header 4 2
          @ concat (map (vert_bytes pack_f)
              [flat_vert 0 0 0, flat_vert f_1 0 1, flat_vert f_1 f_1 2, flat_vert 0 f_1 3])
          @ [0, 0, 1, 0, 2, 0,  0, 0, 2, 0, 3, 0], None)
     \<and> snd (savecob pack_f fan_triangulate False quad) = None"
proof (intro allI conjI)
  fix pack_f :: "f32 \<Rightarrow> byte list"
  show "snd (save pack_f fan_triangulate Verts_init False quad)
       = (bob_header 4 2
          @ concat (map (vert_bytes pack_f)
              [flat_vert 0 0 0, flat_vert f_1 0 1, flat_vert f_1 f_1 2, flat_vert 0 f_1 3])
          @ [0, 0, 1, 0, 2, 0,  0, 0, 2, 0, 3, 0], None)"
    by (simp add: save_eq [OF collect_fan_quad] quantizable_flat_vert)
      (simp add: write_face_def pack_H_def le2_def flat_vert_def Suc_numerals)
  show "snd (savecob pack_f fan_triangulate False quad) = None"
    by (rule savecob_finishes) (simp_all add: prepare_quad tessfaces_fan_quad, simp add: quad_def)
qed

theorem nontriangle_is_triangulated_witness:
  "\<forall>pack_f.
     prepare fan_triangulate False quad = fan_triangulate quad
     \<and> save pack_f fan_triangulate Verts_init False quad
         = save pack_f fan_triangulate Verts_init True quad
     \<and> savecob pack_f fan_triangulate False quad = savecob pack_f fan_triangulate True quad
     \<and> snd (snd (save pack_f fan_triangulate Verts_init False quad)) = None
     \<and> snd (savecob pack_f fan_triangulate False quad) = None"
proof
  fix pack_f :: "f32 \<Rightarrow> byte list"
  have q: "list_ex (\<lambda>face. length (t_vertices face) \<noteq> 3) (m_tessfaces quad)"
    by (simp add: quad_def)
  have lv: "length (m_vertices quad) = 4"
    by (simp add: quad_def)
  have c: "cls_verts (fst (collect_faces Verts_init (bm_uv_layers (fan_triangulate quad))
      (bm_faces (fan_triangulate quad))))
    = [flat_vert 0 0 0, flat_vert f_1 0 1, flat_vert f_1 f_1 2, flat_vert 0 f_1 3]"
    using collect_fan_quad by (simp add: prepare_quad)
  have h1: "wf_Verts Verts_init
      \<and> list_all (\<lambda>face. length face = 3) (bm_faces (fan_triangulate quad))
      \<and> length (bm_faces (fan_triangulate quad)) \<le> 4294967295
      \<and> length (cls_verts (fst (collect_faces Verts_init (bm_uv_layers (fan_triangulate quad))
            (bm_faces (fan_triangulate quad))))) \<le> 65536"
    unfolding c by (simp add: wf_Verts_init two_triangles)
  have q1: "\<forall>v \<in> set (cls_verts (fst (collect_faces Verts_init
      (bm_uv_layers (fan_triangulate quad)) (bm_faces (fan_triangulate quad))))). quantizable v"
    unfolding c by (simp add: quantizable_flat_vert)
  have h2: "list_all (\<lambda>face. length (t_vertices face) = 3
            \<and> list_all (\<lambda>i. 0 \<le> i \<and> i \<le> 4294967295) (t_vertices face))
          (m_tessfaces (fan_triangulate quad))
      \<and> length (m_vertices (fan_triangulate quad)) \<le> 4294967295
      \<and> length (m_tessfaces (fan_triangulate quad)) \<le> 4294967295"
    by (simp add: tessfaces_fan_quad lv)
  show "prepare fan_triangulate False quad = fan_triangulate quad
     \<and> save pack_f fan_triangulate Verts_init False quad
         = save pack_f fan_triangulate Verts_init True quad
     \<and> savecob pack_f fan_triangulate False quad = savecob pack_f fan_triangulate True quad
     \<and> snd (snd (save pack_f fan_triangulate Verts_init False quad)) = None
     \<and> snd (savecob pack_f fan_triangulate False quad) = None"
    using nontriangle_is_triangulated [OF q, of fan_triangulate pack_f Verts_init] h1 q1 h2
    by blast
qed

subsection \<open>Two exports in one session\<close>

lemma collect_mesh_B:
  "collect_faces Verts_init (bm_uv_layers (prepare triangulate_op False mesh_B))
      (bm_faces (prepare triangulate_op False mesh_B))
   = (\<lparr>cls_verts = mesh_B_verts 0,
        cls_by_blender_index = (\<lambda>k. [])
          (0 := [mesh_B_verts 0 ! 0], 1 := [mesh_B_verts 0 ! 1], 2 := [mesh_B_verts 0 ! 2])\<rparr>,
      [mesh_B_verts 0])"
  by (simp add: prepare_def mesh_B_def mesh_B_verts_def weld_eval eval_nat_numeral)

lemma state_after_mesh_A:
  "fst (save pack_f triangulate_op Verts_init False mesh_A)
     = \<lparr>cls_verts = mesh_A_verts,
        cls_by_blender_index = (\<lambda>k. [])
          (0 := [mesh_A_verts ! 0], 1 := [mesh_A_verts ! 1], 2 := [mesh_A_verts ! 2])\<rparr>"
  by (simp add: save_state collect_mesh_A mesh_A_verts_def)

lemma collect_mesh_B_after_A:
  "collect_faces (fst (save pack_f triangulate_op Verts_init False mesh_A))
      (bm_uv_layers (prepare triangulate_op False mesh_B))
      (bm_faces (prepare triangulate_op False mesh_B))
   = (\<lparr>cls_verts = mesh_A_verts @ mesh_B_verts 3,
        cls_by_blender_index = (\<lambda>k. [])
          (0 := [mesh_A_verts ! 0, mesh_B_verts 3 ! 0],
           1 := [mesh_A_verts ! 1, mesh_B_verts 3 ! 1],
           2 := [mesh_A_verts ! 2, mesh_B_verts 3 ! 2])\<rparr>,
      [mesh_B_verts 3])"
  unfolding state_after_mesh_A
  by (simp add: prepare_def mesh_B_def mesh_A_verts_def mesh_B_verts_def weld_eval
      eval_nat_numeral fun_upd_twist)

text \<open>
  C1. The claim is that the lists of the welding are empty at the start of every
  export, so that an export writes the same file whatever was exported before. They
  are attributes of the class \<open>Verts\<close> and keep the vertices of earlier exports: after
  the export of \<open>mesh_A\<close> the vertex list holds its three vertices, and the export of
  \<open>mesh_B\<close> then writes six vertices and the face \<open>(3, 4, 5)\<close>, where a fresh session
  writes three vertices and the face \<open>(0, 1, 2)\<close>.
\<close>

theorem verts_shared_between_exports:
  "\<forall>pack_f triangulate_op.
     cls_verts (fst (save pack_f triangulate_op Verts_init False mesh_A)) = mesh_A_verts
     \<and> snd (save pack_f triangulate_op Verts_init False mesh_B)
         = (bob_header 3 1 @ concat (map (vert_bytes pack_f) (mesh_B_verts 0))
            @ [0, 0, 1, 0, 2, 0], None)
     \<and> snd (save pack_f triangulate_op
              (fst (save pack_f triangulate_op Verts_init False mesh_A)) False mesh_B)
         = (bob_header 6 1 @ concat (map (vert_bytes pack_f) (mesh_A_verts @ mesh_B_verts 3))
            @ [3, 0, 4, 0, 5, 0], None)"
proof (intro allI conjI)
  fix pack_f :: "f32 \<Rightarrow> byte list" and triangulate_op :: "mesh \<Rightarrow> mesh"
  show "cls_verts (fst (save pack_f triangulate_op Verts_init False mesh_A)) = mesh_A_verts"
    by (simp add: state_after_mesh_A)
  have l: "length (mesh_B_verts n) = 3" "length mesh_A_verts = 3" for n
    by (simp_all add: mesh_B_verts_def mesh_A_verts_def)
  have w: "write_face (mesh_B_verts n) (b, None)
      = (b @ le2 (int n) @ le2 (int n + 1) @ le2 (int n + 2), None)" if "n \<le> 10" for n b
    using that by (simp add: write_face_def mesh_B_verts_def pack_H_def add.commute)
  show "snd (save pack_f triangulate_op Verts_init False mesh_B)
      = (bob_header 3 1 @ concat (map (vert_bytes pack_f) (mesh_B_verts 0))
         @ [0, 0, 1, 0, 2, 0], None)"
    by (simp add: save_eq [OF collect_mesh_B] quantizable_examples w l le2_def)
  have q: "\<forall>v \<in> set (mesh_A_verts @ mesh_B_verts 3). quantizable v"
    using quantizable_examples(1) quantizable_examples(2) [of 3] by auto
  show "snd (save pack_f triangulate_op
            (fst (save pack_f triangulate_op Verts_init False mesh_A)) False mesh_B)
      = (bob_header 6 1 @ concat (map (vert_bytes pack_f) (mesh_A_verts @ mesh_B_verts 3))
         @ [3, 0, 4, 0, 5, 0], None)"
    using q by (simp add: save_eq [OF collect_mesh_B_after_A] w l le2_def)
qed

end
